theory Spec2Isabelle
  imports
    Complex_Main
    "HOL-Library.Char_ord"
    "HOL-Library.List_Lexorder"
    "HOL-Library.Product_Lexorder"
    "HOL-Library.Multiset"
begin

section \<open>Daily nearest-station assignment: the embedding\<close>

text \<open>
  The development follows \<^verbatim>\<open>assign_nearest_station_dynamic_200706_201108.py\<close>.
  Conventions of the embedding:
  \<^item> a pandas frame is a list of typed rows together with the list of its column names;
    a cell that pandas holds as NaN or NaT is \<open>None\<close>;
  \<^item> a timestamp is an \<open>int\<close>, the number of its calendar day (the tables hold dates,
    so \<^verbatim>\<open>normalize()\<close> is the identity and \<^verbatim>\<open>Timedelta(days=1)\<close> is \<open>1\<close>); the
    ISO text of a date orders as the day number does;
  \<^item> a float coordinate, distance or measurement is a \<open>real\<close>: rounding, infinities and
    NaN coordinates are outside the model;
  \<^item> a text cell is the list of the code points of its characters (\<open>ustr\<close>), which is
    what Python's \<^verbatim>\<open>str\<close> counts and compares; the names of columns are plain strings;
  \<^item> an exception is a value of \<open>error\<close>, returned as \<open>Inl\<close>.
\<close>

subsection \<open>Text cells\<close>

type_synonym ustr = "nat list"

subsection \<open>Errors\<close>

datatype error =
    MissingColumns "string list"  \<comment> \<open>ValueError: Centers file missing columns\<close>
  | KeyError "string list"        \<comment> \<open>a frame indexed by labels it does not have\<close>
  | EmptySunlight                 \<comment> \<open>ValueError: Sunlight data is empty after window filtering\<close>
  | MissingSunCol string          \<comment> \<open>ValueError: Sunlight file missing the measurement column\<close>
  | EmptyArgmin                   \<comment> \<open>ValueError: attempt to get argmin of an empty sequence\<close>
  | NoObjectsToConcatenate        \<comment> \<open>ValueError of pd.concat on an empty list\<close>

subsection \<open>nearest_station_for_day\<close>

text \<open>\<^verbatim>\<open>np.hypot\<close>, in exact arithmetic.\<close>

definition hypot :: "real \<Rightarrow> real \<Rightarrow> real" where
  "hypot x y = sqrt (x\<^sup>2 + y\<^sup>2)"

text \<open>
  \<^verbatim>\<open>argmin\<close> of one row: a left-to-right scan that keeps the position of the smallest
  value seen so far and replaces it only by a strictly smaller one.
\<close>

fun argmin_from :: "nat \<Rightarrow> real \<Rightarrow> nat \<Rightarrow> real list \<Rightarrow> nat" where
  "argmin_from bi bv i [] = bi"
| "argmin_from bi bv i (x # xs) =
     (if x < bv then argmin_from i x (Suc i) xs else argmin_from bi bv (Suc i) xs)"

definition argmin :: "real list \<Rightarrow> nat" where
  "argmin xs = (case xs of [] \<Rightarrow> 0 | x # rest \<Rightarrow> argmin_from 0 x 1 rest)"

text \<open>
  \<^verbatim>\<open>dist\<close> is the matrix (regions by stations) of distances, a list of rows.
  \<^verbatim>\<open>dist.argmin(axis=1)\<close> raises when the reduced axis has size zero, that is when
  there is no station; otherwise every row has an \<^verbatim>\<open>argmin\<close>. The callers pass
  coordinate columns of one frame, so \<open>rx\<close>, \<open>ry\<close> have one length and \<open>stx\<close>,
  \<open>sty\<close> have one length.
\<close>

definition nearest_station_for_day ::
  "real list \<Rightarrow> real list \<Rightarrow> real list \<Rightarrow> real list \<Rightarrow> error + (nat list \<times> real list)" where
  "nearest_station_for_day rx ry stx sty =
     (let dx = map (\<lambda>x. map (\<lambda>sx. x - sx) stx) rx;
          dy = map (\<lambda>y. map (\<lambda>sy. y - sy) sty) ry;
          dist = map2 (\<lambda>dxr dyr. map2 hypot dxr dyr) dx dy
      in if length stx = 0 then Inl EmptyArgmin
         else let idx = map argmin dist;
                  dist_m = map2 (\<lambda>row i. row ! i) dist idx
              in Inr (idx, dist_m))"

subsection \<open>Frames and rows\<close>

record 'r frame =
  columns :: "string list"
  rows :: "'r list"

text \<open>
  The Korean column headers of the weather tables are written in romanised form:
  \<open>jijeom\<close> (station number), \<open>jijeommyeong\<close> (station name), \<open>ilsi\<close> (date),
  \<open>sijagil\<close> (start date), \<open>jongryoil\<close> (end date), \<open>wido\<close> (latitude),
  \<open>gyeongdo\<close> (longitude) and \<open>hapgye_iljosigan_hr\<close> (total sunshine hours).
\<close>

abbreviation (input) col_jijeom :: string where "col_jijeom \<equiv> ''jijeom''"
abbreviation (input) col_jijeommyeong :: string where "col_jijeommyeong \<equiv> ''jijeommyeong''"
abbreviation (input) col_ilsi :: string where "col_ilsi \<equiv> ''ilsi''"
abbreviation (input) col_sijagil :: string where "col_sijagil \<equiv> ''sijagil''"
abbreviation (input) col_jongryoil :: string where "col_jongryoil \<equiv> ''jongryoil''"
abbreviation (input) col_wido :: string where "col_wido \<equiv> ''wido''"
abbreviation (input) col_gyeongdo :: string where "col_gyeongdo \<equiv> ''gyeongdo''"
abbreviation (input) sun_col :: string where "sun_col \<equiv> ''hapgye_iljosigan_hr''"

text \<open>
  A row of the station metadata as read: the cells after \<^verbatim>\<open>pd.to_numeric\<close> and
  \<^verbatim>\<open>pd.to_datetime\<close> with \<^verbatim>\<open>errors="coerce"\<close>, an unparseable cell being \<open>None\<close>.
\<close>

record meta_row =
  m_jijeom :: "int option"
  m_jijeommyeong :: ustr
  m_sijagil :: "int option"
  m_jongryoil :: "int option"
  m_wido :: "real option"
  m_gyeongdo :: "real option"

record segment =
  seg_station :: int
  seg_name :: ustr
  seg_start :: int
  seg_end :: int
  seg_lat :: real
  seg_lon :: real

text \<open>A row of the sunshine table as read, and a station-day observation kept from it.\<close>

record sun_row =
  s_jijeom :: "int option"
  s_jijeommyeong :: ustr
  s_ilsi :: "int option"
  s_sun :: "real option"

record obs =
  o_station :: int
  o_name :: ustr
  o_date :: int
  o_sun :: "real option"

subsection \<open>prepare_meta\<close>

text \<open>
  Lines 71 to 88, which act on each row by itself: a row without station number is
  dropped; \<open>seg_start\<close> and \<open>seg_end\<close> are the dates with the window's ends filled in;
  a segment that does not meet the window is dropped and the others are clipped; a row
  without latitude or longitude is dropped.
\<close>

definition clip_row :: "int \<Rightarrow> int \<Rightarrow> meta_row \<Rightarrow> segment option" where
  "clip_row window_start window_end r =
     (case m_jijeom r of
        None \<Rightarrow> None
      | Some st \<Rightarrow>
          let s = (case m_sijagil r of None \<Rightarrow> window_start | Some d \<Rightarrow> d);
              e = (case m_jongryoil r of None \<Rightarrow> window_end | Some d \<Rightarrow> d)
          in if \<not> (e \<ge> window_start \<and> s \<le> window_end) then None
             else (case (m_wido r, m_gyeongdo r) of
                     (Some la, Some lo) \<Rightarrow>
                       Some \<lparr>seg_station = st, seg_name = m_jijeommyeong r,
                             seg_start = max s window_start, seg_end = min e window_end,
                             seg_lat = la, seg_lon = lo\<rparr>
                   | _ \<Rightarrow> None))"

definition clip_segments :: "meta_row list \<Rightarrow> int \<Rightarrow> int \<Rightarrow> segment list" where
  "clip_segments ms window_start window_end =
     List.map_filter (clip_row window_start window_end) ms"

text \<open>Line 91: \<^verbatim>\<open>sort_values\<close> on three columns, a stable sort.\<close>

definition sort_segments :: "segment list \<Rightarrow> segment list" where
  "sort_segments ms = sort_key (\<lambda>s. (seg_station s, seg_start s, seg_end s)) ms"

text \<open>
  Lines 92 to 95. \<^verbatim>\<open>groupby(station)[seg_start].shift(-1)\<close> gives each row the
  \<open>seg_start\<close> of the next row of its station, and nothing to the last row of a station.
  Where that value exists and \<open>seg_end\<close> reaches it, \<open>seg_end\<close> becomes the day before.
  Only \<open>seg_end\<close> is written and only \<open>seg_start\<close> is read, so all rows can be
  treated in one pass.
\<close>

fun truncate_overlaps :: "segment list \<Rightarrow> segment list" where
  "truncate_overlaps [] = []"
| "truncate_overlaps (s # rest) =
     (case find (\<lambda>t. seg_station t = seg_station s) rest of
        None \<Rightarrow> s
      | Some t \<Rightarrow>
          if seg_end s \<ge> seg_start t then s\<lparr>seg_end := seg_start t - 1\<rparr> else s)
     # truncate_overlaps rest"

definition prepare_meta :: "meta_row frame \<Rightarrow> int \<Rightarrow> int \<Rightarrow> error + segment frame" where
  "prepare_meta meta window_start window_end =
     (if col_jijeom \<notin> set (columns meta) then Inl (KeyError [col_jijeom])
      else if col_sijagil \<notin> set (columns meta) then Inl (KeyError [col_sijagil])
      else if col_jongryoil \<notin> set (columns meta) then Inl (KeyError [col_jongryoil])
      else if col_wido \<notin> set (columns meta) then Inl (KeyError [col_wido])
      else if col_gyeongdo \<notin> set (columns meta) then Inl (KeyError [col_gyeongdo])
      else Inr \<lparr>columns = columns meta @ [''seg_start'', ''seg_end''],
                rows = truncate_overlaps
                         (sort_segments (clip_segments (rows meta) window_start window_end))\<rparr>)"

subsection \<open>attach_segment_to_sun\<close>

text \<open>\<^verbatim>\<open>drop_duplicates(subset, keep="first")\<close>: a row is kept when its key is new.\<close>

fun drop_duplicates_seen :: "('a \<Rightarrow> 'k) \<Rightarrow> 'k list \<Rightarrow> 'a list \<Rightarrow> 'a list" where
  "drop_duplicates_seen key seen [] = []"
| "drop_duplicates_seen key seen (x # xs) =
     (if key x \<in> set seen then drop_duplicates_seen key seen xs
      else x # drop_duplicates_seen key (key x # seen) xs)"

definition drop_duplicates :: "('a \<Rightarrow> 'k) \<Rightarrow> 'a list \<Rightarrow> 'a list" where
  "drop_duplicates key xs = drop_duplicates_seen key [] xs"

text \<open>
  The left merge on the station number: every observation, in order, with each segment
  of its station, in order; an observation of a station without segment stays, with
  empty segment cells.
\<close>

definition merge_left :: "obs list \<Rightarrow> segment list \<Rightarrow> (obs \<times> segment option) list" where
  "merge_left sun meta =
     concat (map (\<lambda>ob. case filter (\<lambda>s. seg_station s = o_station ob) meta of
                          [] \<Rightarrow> [(ob, None)]
                        | ms \<Rightarrow> map (\<lambda>s. (ob, Some s)) ms) sun)"

text \<open>
  The function first takes six columns of \<open>meta\<close>, then merges on the station number,
  and reads the date of the merged frame. A comparison with an empty cell is false, so
  \<open>in_seg\<close> drops the rows without segment. The sort is stable, descending in
  \<open>seg_start\<close>.
\<close>

definition attach_segment_to_sun ::
  "obs frame \<Rightarrow> segment frame \<Rightarrow> error + (obs \<times> segment) list" where
  "attach_segment_to_sun sun meta =
     (let wanted = [col_jijeom, col_jijeommyeong, ''seg_start'', ''seg_end'', col_wido, col_gyeongdo];
          absent = filter (\<lambda>c. c \<notin> set (columns meta)) wanted
      in if absent \<noteq> [] then Inl (KeyError absent)
         else if col_jijeom \<notin> set (columns sun) then Inl (KeyError [col_jijeom])
         else if col_ilsi \<notin> set (columns sun) then Inl (KeyError [col_ilsi])
         else
           let m = merge_left (rows sun) (rows meta);
               in_seg = [(ob, s). (ob, Some s) \<leftarrow> m, o_date ob \<ge> seg_start s \<and> o_date ob \<le> seg_end s];
               srt = sort_key (\<lambda>(ob, s). (o_station ob, o_date ob, - seg_start s)) in_seg
           in Inr (drop_duplicates (\<lambda>(ob, s). (o_station ob, o_date ob)) srt))"

subsection \<open>Loading the region centers and the sunshine table\<close>

record center =
  SIGUNGU_CD :: ustr
  resid_area :: ustr
  centroid_x_utmK :: real
  centroid_y_utmK :: real
  rep_x_utmK :: real
  rep_y_utmK :: real

definition need :: "string list" where
  "need = [''SIGUNGU_CD'', ''resid_area'', ''centroid_x_utmK'', ''centroid_y_utmK'',
           ''rep_x_utmK'', ''rep_y_utmK'']"

text \<open>
  \<^verbatim>\<open>str.zfill(5)\<close>: a text of five or more characters is unchanged; a shorter one is
  filled with the digit zero on the left up to five characters, after a leading plus or
  minus sign when there is one.
\<close>

definition zfill5 :: "ustr \<Rightarrow> ustr" where
  "zfill5 s =
     (if length s \<ge> 5 then s
      else case s of
             [] \<Rightarrow> replicate 5 48
           | c # rest \<Rightarrow>
               if c = 43 \<or> c = 45 then c # replicate (5 - length s) 48 @ rest
               else replicate (5 - length s) 48 @ s)"

text \<open>
  The characters that the pattern \<^verbatim>\<open>\s\<close> matches in a Python \<^verbatim>\<open>str\<close>: U+0009 to
  U+000D, U+001C to U+0020, U+0085, U+00A0, U+1680, U+2000 to U+200A, U+2028, U+2029,
  U+202F, U+205F and U+3000. Replacing every run of them by the empty text removes
  each of them.
\<close>

definition is_space :: "nat \<Rightarrow> bool" where
  "is_space c \<longleftrightarrow>
     (9 \<le> c \<and> c \<le> 13) \<or> (28 \<le> c \<and> c \<le> 32) \<or> c = 133 \<or> c = 160 \<or> c = 5760 \<or>
     (8192 \<le> c \<and> c \<le> 8202) \<or> c = 8232 \<or> c = 8233 \<or> c = 8239 \<or> c = 8287 \<or> c = 12288"

definition remove_whitespace :: "ustr \<Rightarrow> ustr" where
  "remove_whitespace s = filter (\<lambda>c. \<not> is_space c) s"

text \<open>
  Lines 176 to 183: \<open>missing\<close> is the set of needed columns that the frame lacks; the
  error carries all of them, sorted.
\<close>

definition load_centers :: "center frame \<Rightarrow> error + center list" where
  "load_centers centers =
     (let missing = filter (\<lambda>c. c \<notin> set (columns centers)) need
      in if missing \<noteq> [] then Inl (MissingColumns (sort (remdups missing)))
         else Inr (map (\<lambda>c. c\<lparr>SIGUNGU_CD := zfill5 (SIGUNGU_CD c),
                                resid_area := remove_whitespace (resid_area c)\<rparr>)
                       (rows centers)))"

text \<open>
  Lines 193 to 206: rows without station number or date are dropped, the others are
  filtered to the window; an empty result is an error; only then is the measurement
  column looked for. Its unparseable cells stay in the frame as empty cells.
\<close>

definition to_obs :: "sun_row \<Rightarrow> obs option" where
  "to_obs r =
     (case (s_jijeom r, s_ilsi r) of
        (Some st, Some d) \<Rightarrow>
          Some \<lparr>o_station = st, o_name = s_jijeommyeong r, o_date = d, o_sun = s_sun r\<rparr>
      | _ \<Rightarrow> None)"

definition load_sun :: "sun_row frame \<Rightarrow> int \<Rightarrow> int \<Rightarrow> error + obs list" where
  "load_sun sun w_start w_end =
     (if col_jijeom \<notin> set (columns sun) then Inl (KeyError [col_jijeom])
      else if col_ilsi \<notin> set (columns sun) then Inl (KeyError [col_ilsi])
      else
        let kept = List.map_filter to_obs (rows sun);
            inside = filter (\<lambda>ob. o_date ob \<ge> w_start \<and> o_date ob \<le> w_end) kept
        in if inside = [] then Inl EmptySunlight
           else if sun_col \<notin> set (columns sun) then Inl (MissingSunCol sun_col)
           else Inr inside)"

subsection \<open>The nearest station of every region, day by day\<close>

text \<open>A candidate: an observation with its segment and the planar position of the station.\<close>

record candidate =
  cand_obs :: obs
  cand_seg :: segment
  st_x_utmK :: real
  st_y_utmK :: real

record region_day_row =
  rd_SIGUNGU_CD :: ustr
  rd_resid_area :: ustr
  rd_date :: int
  station_id_centroid :: int
  dist_m_centroid :: real
  sun_hr_centroid :: "real option"
  station_id_rep :: int
  dist_m_rep :: real
  sun_hr_rep :: "real option"

text \<open>
  \<^verbatim>\<open>groupby\<close>: one group for each key that occurs, the groups in the order of their
  keys, the rows of a group in the order of the frame.
\<close>

definition groupby :: "('a \<Rightarrow> 'k::linorder) \<Rightarrow> 'a list \<Rightarrow> ('k \<times> 'a list) list" where
  "groupby key xs = map (\<lambda>k. (k, filter (\<lambda>x. key x = k) xs)) (sort (remdups (map key xs)))"

text \<open>The body of the loop of lines 234 to 256, for one day and its group of candidates.\<close>

definition day_frame :: "center list \<Rightarrow> int \<times> candidate list \<Rightarrow> error + region_day_row list" where
  "day_frame centers dg =
     (let day = fst dg; g = snd dg;
          st_ids = map (\<lambda>c. o_station (cand_obs c)) g;
          stx = map st_x_utmK g;
          sty = map st_y_utmK g;
          sun_hr = map (\<lambda>c. o_sun (cand_obs c)) g
      in case nearest_station_for_day (map centroid_x_utmK centers) (map centroid_y_utmK centers)
                stx sty of
           Inl e \<Rightarrow> Inl e
         | Inr (idx_c, dist_c) \<Rightarrow>
            (case nearest_station_for_day (map rep_x_utmK centers) (map rep_y_utmK centers)
                    stx sty of
               Inl e \<Rightarrow> Inl e
             | Inr (idx_r, dist_r) \<Rightarrow>
                 Inr (map (\<lambda>i. \<lparr>rd_SIGUNGU_CD = SIGUNGU_CD (centers ! i),
                                  rd_resid_area = resid_area (centers ! i),
                                  rd_date = day,
                                  station_id_centroid = st_ids ! (idx_c ! i),
                                  dist_m_centroid = dist_c ! i,
                                  sun_hr_centroid = sun_hr ! (idx_c ! i),
                                  station_id_rep = st_ids ! (idx_r ! i),
                                  dist_m_rep = dist_r ! i,
                                  sun_hr_rep = sun_hr ! (idx_r ! i)\<rparr>)
                          [0..<length centers])))"

fun out_rows :: "center list \<Rightarrow> (int \<times> candidate list) list \<Rightarrow> error + region_day_row list list" where
  "out_rows centers [] = Inr []"
| "out_rows centers (dg # rest) =
     (case day_frame centers dg of
        Inl e \<Rightarrow> Inl e
      | Inr df \<Rightarrow> (case out_rows centers rest of Inl e \<Rightarrow> Inl e | Inr dfs \<Rightarrow> Inr (df # dfs)))"

text \<open>Lines 233 to 258: the loop over the days that have candidates, then \<^verbatim>\<open>pd.concat\<close>.\<close>

definition region_days :: "center list \<Rightarrow> candidate list \<Rightarrow> error + region_day_row list" where
  "region_days centers sun_seg =
     (case out_rows centers (groupby (\<lambda>c. o_date (cand_obs c)) sun_seg) of
        Inl e \<Rightarrow> Inl e
      | Inr dfs \<Rightarrow> if dfs = [] then Inl NoObjectsToConcatenate else Inr (concat dfs))"

subsection \<open>make_intervals\<close>

record interval =
  iv_SIGUNGU_CD :: ustr
  iv_resid_area :: ustr
  station_id :: int
  start_date :: int
  end_date :: int
  mean_distance_m :: real
  n_days :: nat

text \<open>
  \<^verbatim>\<open>!=\<close> on arrays that may hold NaN: NaN differs from everything, itself included.
\<close>

fun nan_ne :: "int option \<Rightarrow> int option \<Rightarrow> bool" where
  "nan_ne (Some a) (Some b) = (a \<noteq> b)"
| "nan_ne _ _ = True"

text \<open>\<^verbatim>\<open>np.nanmean\<close> of distances, none of which is NaN here.\<close>

definition nanmean :: "real list \<Rightarrow> real" where
  "nanmean xs = sum_list xs / real (length xs)"

text \<open>
  The body of the loop of lines 137 to 160 for one group \<open>g\<close>, the rows of one
  \<open>resid_area\<close> in the order of their dates. \<open>change\<close> marks the first row and every row
  whose station differs from the one before; \<open>starts\<close> are the marked positions, and
  a run ends before the next start or at the end of the group. A group is never empty.
\<close>

definition group_intervals ::
  "ustr \<Rightarrow> region_day_row list \<Rightarrow> (region_day_row \<Rightarrow> int option) \<Rightarrow> (region_day_row \<Rightarrow> real)
     \<Rightarrow> interval list" where
  "group_intervals area g station_col dist_col =
     (case g of
        [] \<Rightarrow> []
      | r0 # _ \<Rightarrow>
          let st = map station_col g;
              d = map dist_col g;
              dates = map rd_date g;
              code = rd_SIGUNGU_CD r0;
              change = True # map2 nan_ne (tl st) (butlast st);
              starts = filter (\<lambda>i. change ! i) [0..<length g];
              ends = map (\<lambda>s. s - 1) (tl starts) @ [length g - 1]
          in concat (map (\<lambda>(s, e).
                 case st ! s of
                   None \<Rightarrow> []
                 | Some st_id \<Rightarrow>
                     [\<lparr>iv_SIGUNGU_CD = code, iv_resid_area = area, station_id = st_id,
                       start_date = dates ! s, end_date = dates ! e,
                       mean_distance_m = nanmean (take (e + 1 - s) (drop s d)),
                       n_days = e - s + 1\<rparr>])
               (zip starts ends)))"

definition make_intervals ::
  "region_day_row list \<Rightarrow> (region_day_row \<Rightarrow> int option) \<Rightarrow> (region_day_row \<Rightarrow> real)
     \<Rightarrow> interval list" where
  "make_intervals region_day station_col dist_col =
     concat (map (\<lambda>(area, g). group_intervals area g station_col dist_col)
               (groupby rd_resid_area
                  (sort_key (\<lambda>r. (rd_resid_area r, rd_date r)) region_day)))"


subsection \<open>Monthly sums\<close>

record monthly_row =
  mo_SIGUNGU_CD :: ustr
  mo_resid_area :: ustr
  ym :: string
  sun_hr_centroid_sum :: real
  sun_hr_rep_sum :: real
  mo_n_days :: nat

text \<open>
  The \<^verbatim>\<open>sum\<close> of a group skips empty cells and starts from zero; \<^verbatim>\<open>count\<close> counts
  the cells of the date column, none of which is empty.
\<close>

definition nansum :: "real option list \<Rightarrow> real" where
  "nansum vs = fold (\<lambda>v acc. case v of None \<Rightarrow> acc | Some x \<Rightarrow> acc + x) vs 0"

definition count_col :: "'a list \<Rightarrow> nat" where
  "count_col vs = length vs"

text \<open>
  Lines 292 to 299. The month of a day, \<^verbatim>\<open>to_period("M")\<close> as text, is a parameter.
\<close>

definition monthly :: "(int \<Rightarrow> string) \<Rightarrow> region_day_row list \<Rightarrow> monthly_row list" where
  "monthly to_period_M region_day =
     map (\<lambda>(k, g). \<lparr>mo_SIGUNGU_CD = fst k, mo_resid_area = fst (snd k), ym = snd (snd k),
                     sun_hr_centroid_sum = nansum (map sun_hr_centroid g),
                     sun_hr_rep_sum = nansum (map sun_hr_rep g),
                     mo_n_days = count_col (map rd_date g)\<rparr>)
       (groupby (\<lambda>r. (rd_SIGUNGU_CD r, rd_resid_area r, to_period_M (rd_date r))) region_day)"

subsection \<open>main\<close>

record outputs =
  out_region_day :: "region_day_row list"
  out_intervals :: "(interval \<times> string) list"
  out_monthly :: "monthly_row list"

text \<open>
  Everything up to line 228: the three tables are loaded and checked, the segments are
  prepared for the days the sunshine table covers, and every observation gets its
  segment and the planar position of its station. The projection to planar
  coordinates, from longitude and latitude, is a parameter. The window of the segments
  runs from the least to the greatest date of the observations, of which there is at
  least one once \<open>load_sun\<close> has returned.
\<close>

definition load_inputs ::
  "(real \<Rightarrow> real \<Rightarrow> real \<times> real) \<Rightarrow> center frame \<Rightarrow> sun_row frame \<Rightarrow> meta_row frame
     \<Rightarrow> int \<Rightarrow> int \<Rightarrow> error + (center list \<times> candidate list)" where
  "load_inputs to_utmK centers sun meta w_start w_end =
     (case load_centers centers of
        Inl e \<Rightarrow> Inl e
      | Inr cs \<Rightarrow>
         (case load_sun sun w_start w_end of
            Inl e \<Rightarrow> Inl e
          | Inr obs \<Rightarrow>
             (case map o_date obs of
                [] \<Rightarrow> Inl EmptySunlight
              | d0 # ds \<Rightarrow>
                 (case prepare_meta meta (fold min ds d0) (fold max ds d0) of
                    Inl e \<Rightarrow> Inl e
                  | Inr segs \<Rightarrow>
                      if col_jijeommyeong \<notin> set (columns sun)
                      then Inl (KeyError [col_jijeommyeong])
                      else
                        (case attach_segment_to_sun
                                \<lparr>columns = [col_jijeom, col_jijeommyeong, col_ilsi, sun_col],
                                 rows = obs\<rparr> segs of
                           Inl e \<Rightarrow> Inl e
                         | Inr sun_seg \<Rightarrow>
                             Inr (cs, map (\<lambda>(ob, s).
                                      let xy = to_utmK (seg_lon s) (seg_lat s)
                                      in \<lparr>cand_obs = ob, cand_seg = s,
                                          st_x_utmK = fst xy, st_y_utmK = snd xy\<rparr>)
                                    sun_seg))))))"

definition main ::
  "(real \<Rightarrow> real \<Rightarrow> real \<times> real) \<Rightarrow> (int \<Rightarrow> string) \<Rightarrow> center frame \<Rightarrow> sun_row frame
     \<Rightarrow> meta_row frame \<Rightarrow> int \<Rightarrow> int \<Rightarrow> error + outputs" where
  "main to_utmK to_period_M centers sun meta w_start w_end =
     (case load_inputs to_utmK centers sun meta w_start w_end of
        Inl e \<Rightarrow> Inl e
      | Inr (cs, sun_seg) \<Rightarrow>
         (case region_days cs sun_seg of
            Inl e \<Rightarrow> Inl e
          | Inr region_day \<Rightarrow>
              let intervals_c = make_intervals region_day
                                  (\<lambda>r. Some (station_id_centroid r)) dist_m_centroid;
                  intervals_r = make_intervals region_day
                                  (\<lambda>r. Some (station_id_rep r)) dist_m_rep
              in Inr \<lparr>out_region_day = region_day,
                      out_intervals = map (\<lambda>iv. (iv, ''centroid'')) intervals_c
                                      @ map (\<lambda>iv. (iv, ''rep'')) intervals_r,
                      out_monthly = monthly to_period_M region_day\<rparr>))"

subsection \<open>Auxiliary notions\<close>

text \<open>One row of the matrix \<open>dist\<close>: the distances from one point to all the stations.\<close>

definition dist_row :: "real \<Rightarrow> real \<Rightarrow> real list \<Rightarrow> real list \<Rightarrow> real list" where
  "dist_row x y stx sty = map2 (\<lambda>sx sy. hypot (x - sx) (y - sy)) stx sty"

text \<open>
  A segment covers an observation when it is a segment of the observation's station and
  the date of the observation lies in it. \<open>in_seg_rows\<close> is the merged frame after the
  filter \<open>in_seg\<close>, and \<open>attached\<close> the frame that \<open>attach_segment_to_sun\<close> returns.
\<close>

definition covers :: "segment \<Rightarrow> obs \<Rightarrow> bool" where
  "covers s ob \<longleftrightarrow> seg_station s = o_station ob \<and> seg_start s \<le> o_date ob \<and> o_date ob \<le> seg_end s"

definition in_seg_rows :: "obs list \<Rightarrow> segment list \<Rightarrow> (obs \<times> segment) list" where
  "in_seg_rows sun meta =
     [(ob, s). (ob, Some s) \<leftarrow> merge_left sun meta, o_date ob \<ge> seg_start s \<and> o_date ob \<le> seg_end s]"

abbreviation (input) sd_key :: "obs \<times> segment \<Rightarrow> int \<times> int" where
  "sd_key \<equiv> (\<lambda>(ob, s). (o_station ob, o_date ob))"

definition attached :: "obs list \<Rightarrow> segment list \<Rightarrow> (obs \<times> segment) list" where
  "attached sun meta =
     drop_duplicates (\<lambda>(ob, s). (o_station ob, o_date ob))
       (sort_key (\<lambda>(ob, s). (o_station ob, o_date ob, - seg_start s)) (in_seg_rows sun meta))"

subsection \<open>Example tables\<close>

text \<open>
  The texts of the examples: the region code 11010, the region key of Jongno-gu in
  Seoul as the centers table writes it (nine characters, Hangul around a slash), and
  the station names A, B, near and far.
\<close>

abbreviation (input) ex_code :: ustr where "ex_code \<equiv> [49, 49, 48, 49, 48]"
abbreviation (input) ex_area :: ustr where
  "ex_area \<equiv> [49436, 50872, 53945, 48324, 49884, 47, 51333, 47196, 44396]"
abbreviation (input) name_A :: ustr where "name_A \<equiv> [65]"
abbreviation (input) name_B :: ustr where "name_B \<equiv> [66]"
abbreviation (input) name_near :: ustr where "name_near \<equiv> [110, 101, 97, 114]"
abbreviation (input) name_far :: ustr where "name_far \<equiv> [102, 97, 114]"

text \<open>
  Station 1 has two observations on day 5 and two segments that both contain day 5;
  station 2 has an observation without measurement and no segment.
\<close>

definition ex_obs_a :: obs where
  "ex_obs_a = \<lparr>o_station = 1, o_name = name_A, o_date = 5, o_sun = Some 2\<rparr>"
definition ex_obs_b :: obs where
  "ex_obs_b = \<lparr>o_station = 1, o_name = name_A, o_date = 5, o_sun = Some 3\<rparr>"
definition ex_obs_c :: obs where
  "ex_obs_c = \<lparr>o_station = 2, o_name = name_B, o_date = 5, o_sun = None\<rparr>"
definition ex_seg_old :: segment where
  "ex_seg_old = \<lparr>seg_station = 1, seg_name = name_A, seg_start = 0, seg_end = 9,
                  seg_lat = 0, seg_lon = 0\<rparr>"
definition ex_seg_new :: segment where
  "ex_seg_new = \<lparr>seg_station = 1, seg_name = name_A, seg_start = 3, seg_end = 10,
                  seg_lat = 1, seg_lon = 1\<rparr>"
definition ex_sun :: "obs frame" where
  "ex_sun = \<lparr>columns = [col_jijeom, col_jijeommyeong, col_ilsi, sun_col],
             rows = [ex_obs_a, ex_obs_b, ex_obs_c]\<rparr>"
definition ex_segs :: "segment frame" where
  "ex_segs = \<lparr>columns = [col_jijeom, col_jijeommyeong, col_sijagil, col_jongryoil, col_wido,
                          col_gyeongdo, ''seg_start'', ''seg_end''],
              rows = [ex_seg_old, ex_seg_new]\<rparr>"

text \<open>
  What \<open>truncate_overlaps\<close> makes of one row, given the rows after it; and the key of
  the sort of line 91.
\<close>

definition truncated :: "segment \<Rightarrow> segment list \<Rightarrow> segment" where
  "truncated s rest =
     (case find (\<lambda>t. seg_station t = seg_station s) rest of
        None \<Rightarrow> s
      | Some t \<Rightarrow> if seg_end s \<ge> seg_start t then s\<lparr>seg_end := seg_start t - 1\<rparr> else s)"

abbreviation (input) seg_key :: "segment \<Rightarrow> int \<times> int \<times> int" where
  "seg_key \<equiv> (\<lambda>s. (seg_station s, seg_start s, seg_end s))"

text \<open>
  Two metadata rows of station 1 that overlap and both start before the window from day
  0 to day 10, and the segments that \<open>prepare_meta\<close> makes of them.
\<close>

definition ex_meta_a :: meta_row where
  "ex_meta_a = \<lparr>m_jijeom = Some 1, m_jijeommyeong = name_A, m_sijagil = Some (- 100),
                 m_jongryoil = Some 5, m_wido = Some 0, m_gyeongdo = Some 0\<rparr>"
definition ex_meta_b :: meta_row where
  "ex_meta_b = \<lparr>m_jijeom = Some 1, m_jijeommyeong = name_A, m_sijagil = Some (- 50),
                 m_jongryoil = None, m_wido = Some 1, m_gyeongdo = Some 1\<rparr>"
definition ex_meta :: "meta_row frame" where
  "ex_meta = \<lparr>columns = [col_jijeom, col_jijeommyeong, col_sijagil, col_jongryoil, col_wido,
                          col_gyeongdo],
              rows = [ex_meta_a, ex_meta_b]\<rparr>"
definition ex_resolved_a :: segment where
  "ex_resolved_a = \<lparr>seg_station = 1, seg_name = name_A, seg_start = 0, seg_end = - 1,
                     seg_lat = 0, seg_lon = 0\<rparr>"
definition ex_resolved_b :: segment where
  "ex_resolved_b = \<lparr>seg_station = 1, seg_name = name_A, seg_start = 0, seg_end = 10,
                     seg_lat = 1, seg_lon = 1\<rparr>"
definition ex_resolved :: "segment frame" where
  "ex_resolved = \<lparr>columns = [col_jijeom, col_jijeommyeong, col_sijagil, col_jongryoil, col_wido,
                          col_gyeongdo, ''seg_start'', ''seg_end''],
              rows = [ex_resolved_a, ex_resolved_b]\<rparr>"

text \<open>Projections used to state which regions and days a frame holds.\<close>

abbreviation (input) rd_region :: "region_day_row \<Rightarrow> ustr \<times> ustr" where
  "rd_region \<equiv> (\<lambda>r. (rd_SIGUNGU_CD r, rd_resid_area r))"

abbreviation (input) center_region :: "center \<Rightarrow> ustr \<times> ustr" where
  "center_region \<equiv> (\<lambda>c. (SIGUNGU_CD c, resid_area c))"

abbreviation (input) cand_date :: "candidate \<Rightarrow> int" where
  "cand_date \<equiv> (\<lambda>c. o_date (cand_obs c))"

text \<open>
  One region at the origin and two stations observed on day 5: the nearer one, at one
  metre, has no measurement that day; the farther one, at two metres, has one. The
  projection of the example is the identity on the pair of longitude and latitude.
\<close>

definition ex1_center :: center where
  "ex1_center = \<lparr>SIGUNGU_CD = ex_code, resid_area = ex_area,
                  centroid_x_utmK = 0, centroid_y_utmK = 0, rep_x_utmK = 0, rep_y_utmK = 0\<rparr>"
definition ex1_centers :: "center frame" where
  "ex1_centers = \<lparr>columns = need, rows = [ex1_center]\<rparr>"
definition ex1_sun :: "sun_row frame" where
  "ex1_sun = \<lparr>columns = [col_jijeom, col_jijeommyeong, col_ilsi, sun_col],
              rows = [\<lparr>s_jijeom = Some 10, s_jijeommyeong = name_near, s_ilsi = Some 5, s_sun = None\<rparr>,
                      \<lparr>s_jijeom = Some 20, s_jijeommyeong = name_far, s_ilsi = Some 5, s_sun = Some 7\<rparr>]\<rparr>"
definition ex1_meta :: "meta_row frame" where
  "ex1_meta = \<lparr>columns = [col_jijeom, col_jijeommyeong, col_sijagil, col_jongryoil, col_wido,
                           col_gyeongdo],
               rows = [\<lparr>m_jijeom = Some 10, m_jijeommyeong = name_near, m_sijagil = None,
                        m_jongryoil = None, m_wido = Some 0, m_gyeongdo = Some 1\<rparr>,
                       \<lparr>m_jijeom = Some 20, m_jijeommyeong = name_far, m_sijagil = None,
                        m_jongryoil = None, m_wido = Some 0, m_gyeongdo = Some 2\<rparr>]\<rparr>"
definition ex1_near :: candidate where
  "ex1_near = \<lparr>cand_obs = \<lparr>o_station = 10, o_name = name_near, o_date = 5, o_sun = None\<rparr>,
                cand_seg = \<lparr>seg_station = 10, seg_name = name_near, seg_start = 5, seg_end = 5,
                             seg_lat = 0, seg_lon = 1\<rparr>,
                st_x_utmK = 1, st_y_utmK = 0\<rparr>"
definition ex1_far :: candidate where
  "ex1_far = \<lparr>cand_obs = \<lparr>o_station = 20, o_name = name_far, o_date = 5, o_sun = Some 7\<rparr>,
               cand_seg = \<lparr>seg_station = 20, seg_name = name_far, seg_start = 5, seg_end = 5,
                            seg_lat = 0, seg_lon = 2\<rparr>,
               st_x_utmK = 2, st_y_utmK = 0\<rparr>"
definition ex1_assigned :: region_day_row where
  "ex1_assigned = \<lparr>rd_SIGUNGU_CD = ex_code, rd_resid_area = ex_area, rd_date = 5,
                    station_id_centroid = 10, dist_m_centroid = 1, sun_hr_centroid = None,
                    station_id_rep = 10, dist_m_rep = 1, sun_hr_rep = None\<rparr>"

text \<open>
  The same region with a single station, whose row of day 5 has no measurement and
  whose row of day 6 has one.
\<close>

definition ex7_sun :: "sun_row frame" where
  "ex7_sun = \<lparr>columns = [col_jijeom, col_jijeommyeong, col_ilsi, sun_col],
              rows = [\<lparr>s_jijeom = Some 10, s_jijeommyeong = name_near, s_ilsi = Some 5, s_sun = None\<rparr>,
                      \<lparr>s_jijeom = Some 10, s_jijeommyeong = name_near, s_ilsi = Some 6, s_sun = Some 7\<rparr>]\<rparr>"
definition ex7_meta :: "meta_row frame" where
  "ex7_meta = \<lparr>columns = [col_jijeom, col_jijeommyeong, col_sijagil, col_jongryoil, col_wido,
                           col_gyeongdo],
               rows = [\<lparr>m_jijeom = Some 10, m_jijeommyeong = name_near, m_sijagil = None,
                        m_jongryoil = None, m_wido = Some 0, m_gyeongdo = Some 1\<rparr>]\<rparr>"
definition ex7_day5 :: candidate where
  "ex7_day5 = \<lparr>cand_obs = \<lparr>o_station = 10, o_name = name_near, o_date = 5, o_sun = None\<rparr>,
                cand_seg = \<lparr>seg_station = 10, seg_name = name_near, seg_start = 5, seg_end = 6,
                             seg_lat = 0, seg_lon = 1\<rparr>,
                st_x_utmK = 1, st_y_utmK = 0\<rparr>"
definition ex7_day6 :: candidate where
  "ex7_day6 = \<lparr>cand_obs = \<lparr>o_station = 10, o_name = name_near, o_date = 6, o_sun = Some 7\<rparr>,
                cand_seg = \<lparr>seg_station = 10, seg_name = name_near, seg_start = 5, seg_end = 6,
                             seg_lat = 0, seg_lon = 1\<rparr>,
                st_x_utmK = 1, st_y_utmK = 0\<rparr>"
definition ex7_row5 :: region_day_row where
  "ex7_row5 = \<lparr>rd_SIGUNGU_CD = ex_code, rd_resid_area = ex_area, rd_date = 5,
                station_id_centroid = 10, dist_m_centroid = 1, sun_hr_centroid = None,
                station_id_rep = 10, dist_m_rep = 1, sun_hr_rep = None\<rparr>"
definition ex7_row6 :: region_day_row where
  "ex7_row6 = \<lparr>rd_SIGUNGU_CD = ex_code, rd_resid_area = ex_area, rd_date = 6,
                station_id_centroid = 10, dist_m_centroid = 1, sun_hr_centroid = Some 7,
                station_id_rep = 10, dist_m_rep = 1, sun_hr_rep = Some 7\<rparr>"





text \<open>
  Notions for the runs of \<open>make_intervals\<close>: \<open>slice xs s e\<close> is the Python slice
  \<^verbatim>\<open>xs[s:e+1]\<close>; \<open>run_bounds\<close> pairs every start with the end of its run;
  \<open>change_of\<close> and \<open>group_runs\<close> are the \<open>change\<close> array and the runs of one group;
  \<open>run_interval\<close> is what the inner loop emits for one run; \<open>region_rows\<close> are the
  rows of one region in the order of their dates.
\<close>

definition slice :: "'a list \<Rightarrow> nat \<Rightarrow> nat \<Rightarrow> 'a list" where
  "slice xs s e = take (e + 1 - s) (drop s xs)"

definition run_bounds :: "nat list \<Rightarrow> nat \<Rightarrow> (nat \<times> nat) list" where
  "run_bounds starts n = zip starts (map (\<lambda>s. s - 1) (tl starts) @ [n - 1])"

definition change_of :: "int option list \<Rightarrow> bool list" where
  "change_of st = True # map2 nan_ne (tl st) (butlast st)"

definition group_runs :: "'a list \<Rightarrow> ('a \<Rightarrow> int option) \<Rightarrow> (nat \<times> nat) list" where
  "group_runs g station_col =
     run_bounds (filter (\<lambda>i. change_of (map station_col g) ! i) [0..<length g]) (length g)"

definition run_interval ::
  "ustr \<Rightarrow> region_day_row list \<Rightarrow> (region_day_row \<Rightarrow> int option) \<Rightarrow> (region_day_row \<Rightarrow> real)
     \<Rightarrow> nat \<times> nat \<Rightarrow> interval list" where
  "run_interval area g station_col dist_col se =
     (case map station_col g ! fst se of
        None \<Rightarrow> []
      | Some st_id \<Rightarrow>
          [\<lparr>iv_SIGUNGU_CD = rd_SIGUNGU_CD (hd g), iv_resid_area = area, station_id = st_id,
            start_date = map rd_date g ! fst se, end_date = map rd_date g ! snd se,
            mean_distance_m = nanmean (slice (map dist_col g) (fst se) (snd se)),
            n_days = snd se - fst se + 1\<rparr>])"

definition region_rows :: "region_day_row list \<Rightarrow> ustr \<Rightarrow> region_day_row list" where
  "region_rows region_day area =
     sort_key rd_date (filter (\<lambda>r. rd_resid_area r = area) region_day)"

text \<open>
  Two days of one region with the same station: day 5 and day 7, no row for day 6.
\<close>

definition ex3_day_a :: region_day_row where
  "ex3_day_a = \<lparr>rd_SIGUNGU_CD = ex_code, rd_resid_area = ex_area, rd_date = 5,
                 station_id_centroid = 20, dist_m_centroid = 2, sun_hr_centroid = Some 7,
                 station_id_rep = 20, dist_m_rep = 2, sun_hr_rep = Some 7\<rparr>"
definition ex3_day_c :: region_day_row where
  "ex3_day_c = \<lparr>rd_SIGUNGU_CD = ex_code, rd_resid_area = ex_area, rd_date = 7,
                 station_id_centroid = 20, dist_m_centroid = 4, sun_hr_centroid = Some 1,
                 station_id_rep = 20, dist_m_rep = 4, sun_hr_rep = Some 1\<rparr>"
definition ex3_interval :: interval where
  "ex3_interval = \<lparr>iv_SIGUNGU_CD = ex_code, iv_resid_area = ex_area,
                    station_id = 20, start_date = 5, end_date = 7, mean_distance_m = 3,
                    n_days = 2\<rparr>"

text \<open>The columns that \<open>main\<close> reads from the sunshine table and from the metadata.\<close>

abbreviation (input) sun_required :: "string list" where
  "sun_required \<equiv> [col_jijeom, col_ilsi, sun_col, col_jijeommyeong]"

abbreviation (input) meta_required :: "string list" where
  "meta_required \<equiv> [col_jijeom, col_jijeommyeong, col_sijagil, col_jongryoil, col_wido, col_gyeongdo]"

text \<open>
  The tables of the first example with columns taken away: the centers without
  \<open>resid_area\<close> and \<open>rep_x_utmK\<close>, the sunshine table without the station name, the
  metadata without the latitude.
\<close>

definition ex9_centers :: "center frame" where
  "ex9_centers = \<lparr>columns = [''SIGUNGU_CD'', ''centroid_x_utmK'', ''centroid_y_utmK'',
                              ''rep_y_utmK''],
                  rows = [ex1_center]\<rparr>"
definition ex9_sun :: "sun_row frame" where
  "ex9_sun = \<lparr>columns = [col_jijeom, col_ilsi, sun_col], rows = rows ex1_sun\<rparr>"
definition ex9_meta :: "meta_row frame" where
  "ex9_meta = \<lparr>columns = [col_jijeom, col_jijeommyeong, col_sijagil, col_jongryoil,
                           col_gyeongdo],
               rows = rows ex1_meta\<rparr>"

section \<open>Properties\<close>

subsection \<open>The nearest station of one day\<close>

lemma argmin_from_spec:
  assumes "length pre = i" "bi < i" "pre ! bi = bv"
    and "\<forall>j<i. bv \<le> pre ! j" and "\<forall>j<bi. bv < pre ! j"
  shows "argmin_from bi bv i xs < length (pre @ xs) \<and>
         (\<forall>j<length (pre @ xs). (pre @ xs) ! argmin_from bi bv i xs \<le> (pre @ xs) ! j) \<and>
         (\<forall>j<argmin_from bi bv i xs. (pre @ xs) ! argmin_from bi bv i xs < (pre @ xs) ! j)"
  using assms
proof (induction xs arbitrary: pre bi bv i)
  case Nil
  then show ?case by auto
next
  case (Cons x xs)
  show ?case
  proof (cases "x < bv")
    case True
    have a: "length (pre @ [x]) = Suc i" using Cons.prems by simp
    have b: "i < Suc i" by simp
    have c: "(pre @ [x]) ! i = x" using Cons.prems by (simp add: nth_append)
    have d: "\<forall>j<Suc i. x \<le> (pre @ [x]) ! j"
    proof (intro allI impI)
      fix j assume j: "j < Suc i"
      show "x \<le> (pre @ [x]) ! j"
      proof (cases "j < i")
        case True
        then have "bv \<le> pre ! j" using Cons.prems(4) by blast
        then show ?thesis using \<open>x < bv\<close> True Cons.prems(1) by (simp add: nth_append)
      next
        case False
        then have "j = i" using j by simp
        then show ?thesis using c by simp
      qed
    qed
    have e: "\<forall>j<i. x < (pre @ [x]) ! j"
    proof (intro allI impI)
      fix j assume j: "j < i"
      then have "bv \<le> pre ! j" using Cons.prems(4) by blast
      then show "x < (pre @ [x]) ! j" using True j Cons.prems(1) by (simp add: nth_append)
    qed
    from Cons.IH[OF a b c d e] True show ?thesis by simp
  next
    case False
    have a: "length (pre @ [x]) = Suc i" using Cons.prems by simp
    have b: "bi < Suc i" using Cons.prems by simp
    have c: "(pre @ [x]) ! bi = bv" using Cons.prems by (simp add: nth_append)
    have d: "\<forall>j<Suc i. bv \<le> (pre @ [x]) ! j"
    proof (intro allI impI)
      fix j assume j: "j < Suc i"
      show "bv \<le> (pre @ [x]) ! j"
      proof (cases "j < i")
        case True
        then have "bv \<le> pre ! j" using Cons.prems(4) by blast
        then show ?thesis using True Cons.prems(1) by (simp add: nth_append)
      next
        case F: False
        then have "j = i" using j by simp
        then show ?thesis using False Cons.prems(1) by (simp add: nth_append)
      qed
    qed
    have e: "\<forall>j<bi. bv < (pre @ [x]) ! j"
    proof (intro allI impI)
      fix j assume j: "j < bi"
      then have "bv < pre ! j" using Cons.prems(5) by blast
      then show "bv < (pre @ [x]) ! j" using j Cons.prems(1,2) by (simp add: nth_append)
    qed
    from Cons.IH[OF a b c d e] False show ?thesis by simp
  qed
qed

lemma argmin_spec:
  assumes "xs \<noteq> []"
  shows "argmin xs < length xs \<and> (\<forall>j<length xs. xs ! argmin xs \<le> xs ! j) \<and>
         (\<forall>j<argmin xs. xs ! argmin xs < xs ! j)"
proof -
  obtain x rest where xs: "xs = x # rest" using assms by (cases xs) auto
  have "argmin_from 0 x 1 rest < length ([x] @ rest) \<and>
         (\<forall>j<length ([x] @ rest). ([x] @ rest) ! argmin_from 0 x 1 rest \<le> ([x] @ rest) ! j) \<and>
         (\<forall>j<argmin_from 0 x 1 rest. ([x] @ rest) ! argmin_from 0 x 1 rest < ([x] @ rest) ! j)"
    by (rule argmin_from_spec) auto
  then show ?thesis by (simp add: xs argmin_def)
qed

lemma nearest_rows:
  assumes "length rx = length ry" "stx \<noteq> []"
  shows "nearest_station_for_day rx ry stx sty =
           Inr (map2 (\<lambda>x y. argmin (dist_row x y stx sty)) rx ry,
                map2 (\<lambda>x y. dist_row x y stx sty ! argmin (dist_row x y stx sty)) rx ry)"
proof -
  have m: "map2 (\<lambda>dxr dyr. map2 hypot dxr dyr)
             (map (\<lambda>x. map (\<lambda>sx. x - sx) stx) rx) (map (\<lambda>y. map (\<lambda>sy. y - sy) sty) ry)
           = map2 (\<lambda>x y. dist_row x y stx sty) rx ry"
    by (simp add: dist_row_def zip_map_map map_zip_map map_zip_map2 case_prod_unfold)
  show ?thesis
    using assms(2)
    by (simp add: nearest_station_for_day_def Let_def m zip_map_map map_zip_map map_zip_map2
        case_prod_unfold zip_same_conv_map comp_def dist_row_def)
qed

text \<open>
  Claim C4. When there is at least one candidate station, \<open>nearest_station_for_day\<close>
  returns, for every region, the position of a candidate, the straight-line distance
  from the region's point to that candidate, this distance is the least over all the
  candidates, and every candidate before the returned one is strictly farther: among
  candidates at the same least distance the first is taken.
\<close>

theorem nearest_station_for_day_minimal:
  assumes "length rx = length ry" and "length stx = length sty" and "stx \<noteq> []"
  shows "\<exists>idx dist_m. nearest_station_for_day rx ry stx sty = Inr (idx, dist_m) \<and>
           length idx = length rx \<and> length dist_m = length rx \<and>
           (\<forall>i<length rx.
              idx ! i < length stx \<and>
              dist_m ! i = hypot (rx ! i - stx ! (idx ! i)) (ry ! i - sty ! (idx ! i)) \<and>
              (\<forall>j<length stx. dist_m ! i \<le> hypot (rx ! i - stx ! j) (ry ! i - sty ! j)) \<and>
              (\<forall>j<idx ! i. dist_m ! i < hypot (rx ! i - stx ! j) (ry ! i - sty ! j)))"
proof -
  let ?row = "\<lambda>i. dist_row (rx ! i) (ry ! i) stx sty"
  let ?idx = "map2 (\<lambda>x y. argmin (dist_row x y stx sty)) rx ry"
  let ?dm = "map2 (\<lambda>x y. dist_row x y stx sty ! argmin (dist_row x y stx sty)) rx ry"
  have len: "\<And>i. length (?row i) = length stx"
    using assms(2) by (simp add: dist_row_def)
  have nth: "\<And>i j. j < length stx \<Longrightarrow> ?row i ! j = hypot (rx ! i - stx ! j) (ry ! i - sty ! j)"
    using assms(2) by (simp add: dist_row_def)
  have ne: "\<And>i. ?row i \<noteq> []"
    using assms(2,3) len by (metis length_0_conv)
  have idx: "\<And>i. i < length rx \<Longrightarrow> ?idx ! i = argmin (?row i)"
    using assms(1) by simp
  have dm: "\<And>i. i < length rx \<Longrightarrow> ?dm ! i = ?row i ! argmin (?row i)"
    using assms(1) by simp
  have main: "\<forall>i<length rx.
              ?idx ! i < length stx \<and>
              ?dm ! i = hypot (rx ! i - stx ! (?idx ! i)) (ry ! i - sty ! (?idx ! i)) \<and>
              (\<forall>j<length stx. ?dm ! i \<le> hypot (rx ! i - stx ! j) (ry ! i - sty ! j)) \<and>
              (\<forall>j<?idx ! i. ?dm ! i < hypot (rx ! i - stx ! j) (ry ! i - sty ! j))"
  proof (intro allI impI)
    fix i assume i: "i < length rx"
    from argmin_spec[OF ne[of i]] len[of i]
    have a: "argmin (?row i) < length stx"
      and b: "\<forall>j<length stx. ?row i ! argmin (?row i) \<le> ?row i ! j"
      and c: "\<forall>j<argmin (?row i). ?row i ! argmin (?row i) < ?row i ! j"
      by auto
    show "?idx ! i < length stx \<and>
              ?dm ! i = hypot (rx ! i - stx ! (?idx ! i)) (ry ! i - sty ! (?idx ! i)) \<and>
              (\<forall>j<length stx. ?dm ! i \<le> hypot (rx ! i - stx ! j) (ry ! i - sty ! j)) \<and>
              (\<forall>j<?idx ! i. ?dm ! i < hypot (rx ! i - stx ! j) (ry ! i - sty ! j))"
      unfolding idx[OF i] dm[OF i]
      using a b c nth[of _ i] by auto
  qed
  have "nearest_station_for_day rx ry stx sty = Inr (?idx, ?dm)"
    by (rule nearest_rows[OF assms(1,3)])
  moreover have "length ?idx = length rx" "length ?dm = length rx"
    using assms(1) by simp_all
  ultimately show ?thesis using main by blast
qed

lemma hypot_zero: "hypot x 0 = \<bar>x\<bar>"
  by (simp add: hypot_def)

theorem nearest_station_for_day_minimal_witness:
  "length [0::real] = length [0::real] \<and> length [3, 1, 1::real] = length [0, 0, 0::real] \<and>
   [3, 1, 1::real] \<noteq> [] \<and>
   nearest_station_for_day [0] [0] [3, 1, 1] [0, 0, 0] = Inr ([1], [1])"
proof -
  have "nearest_station_for_day [0] [0] [3, 1, 1] [0, 0, 0] = Inr ([1], [1])"
    by (simp add: nearest_station_for_day_def argmin_def hypot_zero)
  with nearest_station_for_day_minimal[of "[0]" "[0]" "[3, 1, 1]" "[0, 0, 0]"]
  show ?thesis by simp
qed

subsection \<open>Attaching segments to observations\<close>

lemma dds_subset: "set (drop_duplicates_seen key seen xs) \<subseteq> set xs"
  by (induction xs arbitrary: seen) auto

lemma dds_fresh: "x \<in> set (drop_duplicates_seen key seen xs) \<Longrightarrow> key x \<notin> set seen"
proof (induction xs arbitrary: seen)
  case Nil
  then show ?case by simp
next
  case (Cons a xs)
  show ?case
  proof (cases "key a \<in> set seen")
    case True
    then show ?thesis using Cons by simp
  next
    case False
    then have "x = a \<or> x \<in> set (drop_duplicates_seen key (key a # seen) xs)"
      using Cons.prems by simp
    then show ?thesis
    proof
      assume "x = a" then show ?thesis using False by simp
    next
      assume "x \<in> set (drop_duplicates_seen key (key a # seen) xs)"
      then have "key x \<notin> set (key a # seen)" by (rule Cons.IH)
      then show ?thesis by simp
    qed
  qed
qed

lemma dds_distinct: "distinct (map key (drop_duplicates_seen key seen xs))"
  by (induction xs arbitrary: seen) (auto dest: dds_fresh)

lemma dds_find:
  "k \<notin> set seen \<Longrightarrow>
   find (\<lambda>y. key y = k) (drop_duplicates_seen key seen xs) = find (\<lambda>y. key y = k) xs"
  by (induction xs arbitrary: seen) auto

lemma set_merge_case:
  "(ob, Some s) \<in> set (case ms of [] \<Rightarrow> [(ob', None)] | a # b \<Rightarrow> map (\<lambda>s. (ob', Some s)) (a # b))
     \<longleftrightarrow> ob = ob' \<and> s \<in> set ms"
  by (cases ms) auto

lemma set_merge_left:
  "(ob, Some s) \<in> set (merge_left sun meta) \<longleftrightarrow>
     ob \<in> set sun \<and> s \<in> set meta \<and> seg_station s = o_station ob"
  unfolding merge_left_def set_concat set_map by (auto simp: set_merge_case)

lemma set_in_seg_rows:
  "(ob, s) \<in> set (in_seg_rows sun meta) \<longleftrightarrow> ob \<in> set sun \<and> s \<in> set meta \<and> covers s ob"
proof -
  have "(ob, s) \<in> set (in_seg_rows sun meta) \<longleftrightarrow>
        (ob, Some s) \<in> set (merge_left sun meta) \<and> seg_start s \<le> o_date ob \<and> o_date ob \<le> seg_end s"
    unfolding in_seg_rows_def by (auto split: option.splits)
  then show ?thesis by (auto simp: set_merge_left covers_def)
qed


lemma attach_segment_to_sun_Inr:
  assumes "set [col_jijeom, col_jijeommyeong, ''seg_start'', ''seg_end'', col_wido, col_gyeongdo]
             \<subseteq> set (columns meta)"
    and "col_jijeom \<in> set (columns sun)" and "col_ilsi \<in> set (columns sun)"
  shows "attach_segment_to_sun sun meta = Inr (attached (rows sun) (rows meta))"
proof -
  have "filter (\<lambda>c. c \<notin> set (columns meta))
          [col_jijeom, col_jijeommyeong, ''seg_start'', ''seg_end'', col_wido, col_gyeongdo] = []"
    using assms(1) by (simp only: filter_empty_conv) blast
  then show ?thesis
    unfolding attach_segment_to_sun_def Let_def attached_def in_seg_rows_def
    using assms(2,3) by (simp only: if_False if_True not_not refl not_True_eq_False)
qed

lemma find_distinct_key:
  "distinct (map key xs) \<Longrightarrow> x \<in> set xs \<Longrightarrow> find (\<lambda>y. key y = key x) xs = Some x"
proof (induction xs)
  case Nil
  then show ?case by simp
next
  case (Cons a xs)
  show ?case
  proof (cases "x = a")
    case True
    then show ?thesis by simp
  next
    case False
    then have x: "x \<in> set xs" using Cons.prems by simp
    then have "key x \<in> key ` set xs" by (rule imageI)
    moreover have "key a \<notin> key ` set xs" using Cons.prems(1) by simp
    ultimately have "key a \<noteq> key x" by metis
    moreover have "find (\<lambda>y. key y = key x) xs = Some x"
      using Cons.IH Cons.prems(1) x by simp
    ultimately show ?thesis by simp
  qed
qed

lemma attached_subset: "set (attached sun meta) \<subseteq> set (in_seg_rows sun meta)"
proof -
  have "set (attached sun meta) \<subseteq>
        set (sort_key (\<lambda>(ob, s). (o_station ob, o_date ob, - seg_start s)) (in_seg_rows sun meta))"
    unfolding attached_def drop_duplicates_def by (rule dds_subset)
  then show ?thesis by (simp only: set_sort)
qed

lemma attached_distinct: "distinct (map (\<lambda>(ob, s). (o_station ob, o_date ob)) (attached sun meta))"
  unfolding attached_def drop_duplicates_def by (rule dds_distinct)

lemma attached_first:
  assumes "x \<in> set (attached sun meta)"
  shows "find (\<lambda>y. sd_key y = sd_key x)
           (sort_key (\<lambda>(ob, s). (o_station ob, o_date ob, - seg_start s)) (in_seg_rows sun meta))
         = Some x"
proof -
  have "find (\<lambda>y. sd_key y = sd_key x) (attached sun meta) = Some x"
    using find_distinct_key[OF attached_distinct assms] .
  then show ?thesis
    unfolding attached_def drop_duplicates_def by (simp add: dds_find)
qed

lemma find_first:
  "find P xs = Some x \<Longrightarrow> \<exists>i<length xs. xs ! i = x \<and> (\<forall>j<i. \<not> P (xs ! j))"
  unfolding find_Some_iff by blast

lemma attached_latest:
  assumes x: "(ob, s) \<in> set (attached sun meta)"
    and y: "(ob', s') \<in> set (in_seg_rows sun meta)"
    and k: "o_station ob' = o_station ob" "o_date ob' = o_date ob"
  shows "seg_start s' \<le> seg_start s"
proof -
  define f :: "obs \<times> segment \<Rightarrow> int \<times> int \<times> int"
    where "f = (\<lambda>(ob, s). (o_station ob, o_date ob, - seg_start s))"
  define srt where "srt = sort_key f (in_seg_rows sun meta)"
  have "find (\<lambda>y. sd_key y = sd_key (ob, s)) srt = Some (ob, s)"
    unfolding srt_def f_def by (rule attached_first[OF x])
  from find_first[OF this]
  obtain i where i0: "i < length srt \<and> srt ! i = (ob, s) \<and>
      (\<forall>j<i. \<not> sd_key (srt ! j) = sd_key (ob, s))" ..
  have i: "i < length srt" "srt ! i = (ob, s)"
    by (rule conjunct1[OF i0], rule conjunct1[OF conjunct2[OF i0]])
  have first: "\<forall>j<i. \<not> sd_key (srt ! j) = sd_key (ob, s)"
    by (rule conjunct2[OF conjunct2[OF i0]])
  have "set srt = set (in_seg_rows sun meta)" unfolding srt_def by (rule set_sort)
  with y have "(ob', s') \<in> set srt" by simp
  then obtain j where j: "j < length srt" "srt ! j = (ob', s')"
    unfolding in_set_conv_nth by blast
  have "sd_key (srt ! j) = sd_key (ob, s)" unfolding j(2) using k by simp
  with first have "\<not> j < i" by blast
  then have ij: "i \<le> j" by simp
  have srt: "sorted (map f srt)" unfolding srt_def by (rule sorted_sort_key)
  have jl: "j < length (map f srt)" using j(1) by simp
  have "map f srt ! i \<le> map f srt ! j" by (rule sorted_nth_mono[OF srt ij jl])
  then have "f (srt ! i) \<le> f (srt ! j)"
    by (simp only: nth_map[OF i(1)] nth_map[OF j(1)])
  then have "f (ob, s) \<le> f (ob', s')" by (simp only: i(2) j(2))
  then show ?thesis unfolding f_def using k by simp
qed

lemma attached_complete:
  assumes y: "(ob', s') \<in> set (in_seg_rows sun meta)"
  shows "\<exists>(ob, s) \<in> set (attached sun meta). o_station ob = o_station ob' \<and> o_date ob = o_date ob'"
proof -
  let ?f = "\<lambda>(ob, s). (o_station ob, o_date ob, - seg_start s)"
  let ?srt = "sort_key ?f (in_seg_rows sun meta)"
  from y have "(ob', s') \<in> set ?srt" by simp
  then obtain z where "find (\<lambda>y. sd_key y = sd_key (ob', s')) ?srt = Some z"
    by (cases "find (\<lambda>y. sd_key y = sd_key (ob', s')) ?srt") (auto simp: find_None_iff)
  then have "find (\<lambda>y. sd_key y = sd_key (ob', s')) (attached sun meta) = Some z"
    unfolding attached_def drop_duplicates_def by (simp add: dds_find)
  then have "z \<in> set (attached sun meta) \<and> sd_key z = sd_key (ob', s')"
    unfolding find_Some_iff by auto
  then show ?thesis by (cases z) auto
qed

lemma ex_attach: "attach_segment_to_sun ex_sun ex_segs = Inr [(ex_obs_a, ex_seg_new)]"
  by (simp add: attach_segment_to_sun_def merge_left_def drop_duplicates_def ex_sun_def ex_segs_def
      ex_obs_a_def ex_obs_b_def ex_obs_c_def ex_seg_old_def ex_seg_new_def)

text \<open>
  Claim C5. With the columns it reads present, \<open>attach_segment_to_sun\<close> returns rows
  that pair an observation with a segment of its station whose interval contains the
  date of the observation, and no segment covering that observation starts later than
  the one it is paired with. An observation has a row for its station and date in the
  result exactly when some segment covers it: an observation that no segment covers is
  dropped.
\<close>

theorem attach_segment_to_sun_latest_segment:
  assumes "set [col_jijeom, col_jijeommyeong, ''seg_start'', ''seg_end'', col_wido, col_gyeongdo]
             \<subseteq> set (columns meta)"
    and "col_jijeom \<in> set (columns sun)" and "col_ilsi \<in> set (columns sun)"
  shows "\<exists>res. attach_segment_to_sun sun meta = Inr res \<and>
           (\<forall>(ob, s) \<in> set res.
              ob \<in> set (rows sun) \<and> s \<in> set (rows meta) \<and> covers s ob \<and>
              (\<forall>s' \<in> set (rows meta). covers s' ob \<longrightarrow> seg_start s' \<le> seg_start s)) \<and>
           (\<forall>ob \<in> set (rows sun).
              (\<exists>s \<in> set (rows meta). covers s ob) \<longleftrightarrow>
              (\<exists>(ob', s) \<in> set res. o_station ob' = o_station ob \<and> o_date ob' = o_date ob))"
proof -
  let ?res = "attached (rows sun) (rows meta)"
  have r: "attach_segment_to_sun sun meta = Inr ?res"
    by (rule attach_segment_to_sun_Inr[OF assms])
  have a: "\<forall>(ob, s) \<in> set ?res.
              ob \<in> set (rows sun) \<and> s \<in> set (rows meta) \<and> covers s ob \<and>
              (\<forall>s' \<in> set (rows meta). covers s' ob \<longrightarrow> seg_start s' \<le> seg_start s)"
  proof (clarify, intro conjI ballI impI)
    fix ob s assume x: "(ob, s) \<in> set ?res"
    then have in_rows: "(ob, s) \<in> set (in_seg_rows (rows sun) (rows meta))"
      using attached_subset by blast
    then show "ob \<in> set (rows sun)" "s \<in> set (rows meta)" "covers s ob"
      by (simp_all add: set_in_seg_rows)
    fix s' assume "s' \<in> set (rows meta)" "covers s' ob"
    then have "(ob, s') \<in> set (in_seg_rows (rows sun) (rows meta))"
      using in_rows by (simp add: set_in_seg_rows)
    then show "seg_start s' \<le> seg_start s"
      using attached_latest[OF x] by simp
  qed
  have b: "\<forall>ob \<in> set (rows sun).
              (\<exists>s \<in> set (rows meta). covers s ob) \<longleftrightarrow>
              (\<exists>(ob', s) \<in> set ?res. o_station ob' = o_station ob \<and> o_date ob' = o_date ob)"
  proof (intro ballI iffI)
    fix ob assume ob: "ob \<in> set (rows sun)" and "\<exists>s \<in> set (rows meta). covers s ob"
    then obtain s where "(ob, s) \<in> set (in_seg_rows (rows sun) (rows meta))"
      by (auto simp: set_in_seg_rows)
    from attached_complete[OF this]
    show "\<exists>(ob', s) \<in> set ?res. o_station ob' = o_station ob \<and> o_date ob' = o_date ob" .
  next
    fix ob assume ob: "ob \<in> set (rows sun)"
      and "\<exists>(ob', s) \<in> set ?res. o_station ob' = o_station ob \<and> o_date ob' = o_date ob"
    then obtain ob' s where x: "(ob', s) \<in> set ?res"
      and k: "o_station ob' = o_station ob" "o_date ob' = o_date ob" by auto
    from x have "(ob', s) \<in> set (in_seg_rows (rows sun) (rows meta))"
      using attached_subset by blast
    then have "s \<in> set (rows meta)" "covers s ob'" by (simp_all add: set_in_seg_rows)
    then have "covers s ob" using k by (simp add: covers_def)
    then show "\<exists>s \<in> set (rows meta). covers s ob" using \<open>s \<in> set (rows meta)\<close> by blast
  qed
  show ?thesis using r a b by blast
qed

theorem attach_segment_to_sun_latest_segment_witness:
  "set [col_jijeom, col_jijeommyeong, ''seg_start'', ''seg_end'', col_wido, col_gyeongdo]
     \<subseteq> set (columns ex_segs) \<and>
   col_jijeom \<in> set (columns ex_sun) \<and> col_ilsi \<in> set (columns ex_sun) \<and>
   attach_segment_to_sun ex_sun ex_segs = Inr [(ex_obs_a, ex_seg_new)] \<and>
   covers ex_seg_old ex_obs_a \<and> seg_start ex_seg_old \<le> seg_start ex_seg_new"
  using attach_segment_to_sun_latest_segment[of ex_segs ex_sun] ex_attach
  by (simp add: ex_sun_def ex_segs_def covers_def ex_obs_a_def ex_seg_old_def ex_seg_new_def)

text \<open>
  Claim C10. In the frame that \<open>attach_segment_to_sun\<close> returns, a pair of station
  number and date occurs at most once, whatever the observations and the segments are.
\<close>

theorem attach_segment_to_sun_distinct:
  assumes "attach_segment_to_sun sun meta = Inr res"
  shows "distinct (map (\<lambda>(ob, s). (o_station ob, o_date ob)) res)"
proof -
  have "res = attached (rows sun) (rows meta)"
    using assms
    unfolding attach_segment_to_sun_def Let_def attached_def in_seg_rows_def
    by (simp split: if_splits)
  then show ?thesis by (simp only: attached_distinct)
qed

theorem attach_segment_to_sun_distinct_witness:
  "attach_segment_to_sun ex_sun ex_segs = Inr [(ex_obs_a, ex_seg_new)] \<and>
   distinct (map (\<lambda>(ob, s). (o_station ob, o_date ob)) [(ex_obs_a, ex_seg_new)])"
  using attach_segment_to_sun_distinct[of ex_sun ex_segs "[(ex_obs_a, ex_seg_new)]"] ex_attach
  by simp

subsection \<open>Resolved segments\<close>

lemma clip_row_window:
  assumes "clip_row ws we r = Some s" and "ws \<le> we"
  shows "ws \<le> seg_start s \<and> seg_start s \<le> we \<and> ws \<le> seg_end s \<and> seg_end s \<le> we"
  using assms
  by (auto simp: clip_row_def Let_def split: option.splits if_splits)

lemma clip_segments_window:
  assumes "s \<in> set (clip_segments ms ws we)" and "ws \<le> we"
  shows "ws \<le> seg_start s \<and> seg_start s \<le> we \<and> ws \<le> seg_end s \<and> seg_end s \<le> we"
proof -
  from assms(1) obtain r where "clip_row ws we r = Some s"
    by (auto simp: clip_segments_def List.map_filter_def)
  then show ?thesis using assms(2) by (rule clip_row_window)
qed

lemma length_truncate_overlaps: "length (truncate_overlaps xs) = length xs"
  by (induction xs) simp_all

lemma truncate_overlaps_nth:
  "i < length xs \<Longrightarrow> truncate_overlaps xs ! i = truncated (xs ! i) (drop (Suc i) xs)"
proof (induction xs arbitrary: i)
  case Nil
  then show ?case by simp
next
  case (Cons a xs)
  show ?case
  proof (cases i)
    case 0
    then show ?thesis by (simp add: truncated_def)
  next
    case (Suc k)
    then have "k < length xs" using Cons.prems by simp
    then show ?thesis using Cons.IH Suc by simp
  qed
qed

lemma truncated_fields:
  "seg_station (truncated s rest) = seg_station s"
  "seg_start (truncated s rest) = seg_start s"
  "seg_end (truncated s rest) \<le> seg_end s"
  by (auto simp: truncated_def split: option.splits)

lemma truncated_end_cases:
  "seg_end (truncated s rest) = seg_end s \<or>
   (\<exists>t \<in> set rest. seg_end (truncated s rest) = seg_start t - 1)"
proof (cases "find (\<lambda>t. seg_station t = seg_station s) rest")
  case None
  then show ?thesis by (simp add: truncated_def)
next
  case (Some t)
  then have "t \<in> set rest" unfolding find_Some_iff by auto
  then show ?thesis using Some by (auto simp: truncated_def)
qed

lemma truncated_before_first:
  assumes "find (\<lambda>t. seg_station t = seg_station s) rest = Some t"
  shows "seg_end (truncated s rest) < seg_start t"
  using assms by (simp add: truncated_def)

lemma truncate_overlaps_disjoint:
  assumes srt: "sorted (map seg_key xs)"
    and ij: "i < j" "j < length xs"
    and st: "seg_station (xs ! i) = seg_station (xs ! j)"
  shows "seg_end (truncate_overlaps xs ! i) < seg_start (xs ! j)"
proof -
  define rest where "rest = drop (Suc i) xs"
  define P :: "segment \<Rightarrow> bool" where "P = (\<lambda>t. seg_station t = seg_station (xs ! i))"
  have i: "i < length xs" using ij by simp
  have jm: "j - Suc i < length rest" "rest ! (j - Suc i) = xs ! j"
    using ij by (simp_all add: rest_def)
  then have "P (rest ! (j - Suc i))" using st by (simp add: P_def)
  then have "find P rest \<noteq> None" using jm(1) unfolding find_None_iff by (metis nth_mem)
  then obtain t where t: "find P rest = Some t" by blast
  from find_first[OF t] obtain m where m0: "m < length rest \<and> rest ! m = t \<and> (\<forall>k<m. \<not> P (rest ! k))" ..
  have m: "m < length rest" "rest ! m = t" using m0 by simp_all
  have "\<not> j - Suc i < m" using m0 \<open>P (rest ! (j - Suc i))\<close> by blast
  then have le: "Suc i + m \<le> j" using ij by simp
  have tx: "t = xs ! (Suc i + m)" using m by (simp add: rest_def)
  have Pt: "seg_station t = seg_station (xs ! i)"
    using t unfolding find_Some_iff P_def by blast
  have jl: "j < length (map seg_key xs)" using ij by simp
  have "map seg_key xs ! (Suc i + m) \<le> map seg_key xs ! j"
    by (rule sorted_nth_mono[OF srt le jl])
  then have "seg_key t \<le> seg_key (xs ! j)" using tx le ij by simp
  then have "seg_start t \<le> seg_start (xs ! j)" using Pt st by auto
  moreover have "seg_end (truncated (xs ! i) rest) < seg_start t"
    using t unfolding P_def by (rule truncated_before_first)
  ultimately show ?thesis using truncate_overlaps_nth[OF i] by (simp add: rest_def)
qed

lemma truncate_overlaps_adjacent:
  assumes "Suc i < length xs" and "seg_station (xs ! i) = seg_station (xs ! Suc i)"
    and "seg_end (xs ! i) \<ge> seg_start (xs ! Suc i)"
  shows "seg_end (truncate_overlaps xs ! i) = seg_start (xs ! Suc i) - 1"
proof -
  have i: "i < length xs" using assms(1) by simp
  have "drop (Suc i) xs = xs ! Suc i # drop (Suc (Suc i)) xs"
    using assms(1) by (simp add: Cons_nth_drop_Suc)
  then have "truncated (xs ! i) (drop (Suc i) xs) = (xs ! i)\<lparr>seg_end := seg_start (xs ! Suc i) - 1\<rparr>"
    using assms(2,3) by (simp add: truncated_def)
  then show ?thesis using truncate_overlaps_nth[OF i] by simp
qed

lemma truncate_overlaps_window:
  assumes "\<forall>s \<in> set xs. ws \<le> seg_start s \<and> seg_start s \<le> we \<and> ws \<le> seg_end s \<and> seg_end s \<le> we"
    and "s \<in> set (truncate_overlaps xs)"
  shows "ws \<le> seg_start s \<and> seg_start s \<le> we \<and> ws - 1 \<le> seg_end s \<and> seg_end s \<le> we"
proof -
  from assms(2) obtain i where i: "i < length xs" "s = truncate_overlaps xs ! i"
    unfolding in_set_conv_nth length_truncate_overlaps by blast
  define rest where "rest = drop (Suc i) xs"
  have s: "s = truncated (xs ! i) rest" using i truncate_overlaps_nth by (simp add: rest_def)
  have xi: "ws \<le> seg_start (xs ! i) \<and> seg_start (xs ! i) \<le> we \<and> ws \<le> seg_end (xs ! i) \<and> seg_end (xs ! i) \<le> we"
    using assms(1) i(1) by simp
  have "set rest \<subseteq> set xs" unfolding rest_def by (rule set_drop_subset)
  then have rest: "\<forall>t \<in> set rest. ws \<le> seg_start t" using assms(1) by blast
  have "ws - 1 \<le> seg_end s"
    using truncated_end_cases[of "xs ! i" rest] rest xi unfolding s by fastforce
  then show ?thesis using xi truncated_fields[of "xs ! i" rest] unfolding s by simp
qed

lemma ex_prepare_meta: "prepare_meta ex_meta 0 10 = Inr ex_resolved"
  by (simp add: prepare_meta_def ex_meta_def ex_resolved_def clip_segments_def sort_segments_def
      List.map_filter_def clip_row_def ex_meta_a_def ex_meta_b_def ex_resolved_a_def
      ex_resolved_b_def)

text \<open>
  Claim C3, as amended. Let \<open>srt\<close> be the clipped segments in the order of the sort.
  When \<open>prepare_meta\<close> returns and the window is not empty, the result has a row for
  each row of \<open>srt\<close>, with the same station and the same \<open>seg_start\<close>: a later segment
  is never moved. Of two rows of one station the earlier ends before the later starts,
  so no two segments of a station overlap. Every \<open>seg_start\<close> lies in the window and
  every \<open>seg_end\<close> is at most the end of the window and at least the day before its
  start. Where a row of \<open>srt\<close> reaches the \<open>seg_start\<close> of the next row and both are of
  one station, its \<open>seg_end\<close> becomes exactly the day before that \<open>seg_start\<close>.
\<close>

theorem prepare_meta_resolved:
  fixes meta :: "meta_row frame" and ws we :: int and res :: "segment frame"
  defines "srt \<equiv> sort_segments (clip_segments (rows meta) ws we)"
  assumes ok: "prepare_meta meta ws we = Inr res" and win: "ws \<le> we"
  shows "length (rows res) = length srt \<and>
    (\<forall>i j. i < j \<and> j < length (rows res) \<and>
            seg_station (rows res ! i) = seg_station (rows res ! j)
            \<longrightarrow> seg_end (rows res ! i) < seg_start (rows res ! j)) \<and>
    (\<forall>s \<in> set (rows res).
        ws \<le> seg_start s \<and> seg_start s \<le> we \<and> ws - 1 \<le> seg_end s \<and> seg_end s \<le> we) \<and>
    (\<forall>i. Suc i < length srt \<and> seg_station (srt ! i) = seg_station (srt ! Suc i) \<and>
          seg_start (srt ! Suc i) \<le> seg_end (srt ! i)
          \<longrightarrow> seg_end (rows res ! i) = seg_start (srt ! Suc i) - 1) \<and>
    (\<forall>i<length srt. seg_station (rows res ! i) = seg_station (srt ! i) \<and>
                     seg_start (rows res ! i) = seg_start (srt ! i))"
proof -
  have res: "rows res = truncate_overlaps srt"
    using ok unfolding prepare_meta_def srt_def by (auto split: if_splits)
  have sorted: "sorted (map seg_key srt)"
    unfolding srt_def sort_segments_def by (rule sorted_sort_key)
  have len: "length (rows res) = length srt"
    unfolding res by (rule length_truncate_overlaps)
  have fields: "\<And>i. i < length srt \<Longrightarrow>
      seg_station (rows res ! i) = seg_station (srt ! i) \<and>
      seg_start (rows res ! i) = seg_start (srt ! i)"
    unfolding res by (simp add: truncate_overlaps_nth truncated_fields)
  have disj: "\<forall>i j. i < j \<and> j < length (rows res) \<and>
            seg_station (rows res ! i) = seg_station (rows res ! j)
            \<longrightarrow> seg_end (rows res ! i) < seg_start (rows res ! j)"
  proof (intro allI impI)
    fix i j
    assume a: "i < j \<and> j < length (rows res) \<and>
            seg_station (rows res ! i) = seg_station (rows res ! j)"
    then have ij: "i < j" "j < length srt" "i < length srt" using len by simp_all
    have st: "seg_station (srt ! i) = seg_station (srt ! j)"
      using a fields[OF ij(2)] fields[OF ij(3)] by simp
    have "seg_end (truncate_overlaps srt ! i) < seg_start (srt ! j)"
      by (rule truncate_overlaps_disjoint[OF sorted ij(1,2) st])
    then show "seg_end (rows res ! i) < seg_start (rows res ! j)"
      using fields[OF ij(2)] by (simp add: res)
  qed
  have clipped: "\<forall>s \<in> set srt.
      ws \<le> seg_start s \<and> seg_start s \<le> we \<and> ws \<le> seg_end s \<and> seg_end s \<le> we"
    unfolding srt_def sort_segments_def using clip_segments_window[OF _ win] by simp
  have window: "\<forall>s \<in> set (rows res).
        ws \<le> seg_start s \<and> seg_start s \<le> we \<and> ws - 1 \<le> seg_end s \<and> seg_end s \<le> we"
    unfolding res using truncate_overlaps_window[OF clipped] by blast
  have adj: "\<forall>i. Suc i < length srt \<and> seg_station (srt ! i) = seg_station (srt ! Suc i) \<and>
          seg_start (srt ! Suc i) \<le> seg_end (srt ! i)
          \<longrightarrow> seg_end (rows res ! i) = seg_start (srt ! Suc i) - 1"
    unfolding res using truncate_overlaps_adjacent by blast
  show ?thesis using len disj window adj fields by blast
qed

theorem prepare_meta_resolved_witness:
  "prepare_meta ex_meta 0 10 = Inr ex_resolved \<and> (0::int) \<le> 10 \<and>
   rows ex_resolved = [ex_resolved_a, ex_resolved_b] \<and>
   seg_end ex_resolved_a < seg_start ex_resolved_b \<and>
   seg_end ex_resolved_a = seg_start ex_resolved_b - 1"
  using prepare_meta_resolved[of ex_meta 0 10 ex_resolved] ex_prepare_meta
  by (simp add: ex_resolved_def ex_resolved_a_def ex_resolved_b_def)

text \<open>
  The claim C3 as it is written fails on the example: the earlier of two segments that
  both start at the start of the window is truncated to the day before the window.
\<close>

theorem prepare_meta_window_counterexample:
  "prepare_meta ex_meta 0 10 = Inr ex_resolved \<and>
   rows ex_resolved = [ex_resolved_a, ex_resolved_b] \<and>
   \<not> (0 \<le> seg_end ex_resolved_a \<and> seg_end ex_resolved_a \<le> 10)"
  using ex_prepare_meta by (simp add: ex_resolved_def ex_resolved_a_def)

subsection \<open>One row for each region and each day with candidates\<close>

lemma day_frame_rows:
  assumes "g \<noteq> []"
  shows "\<exists>df. day_frame centers (d, g) = Inr df \<and>
           map rd_region df = map center_region centers \<and> (\<forall>r \<in> set df. rd_date r = d)"
proof -
  have c: "length (map centroid_x_utmK centers) = length (map centroid_y_utmK centers)"
    and r: "length (map rep_x_utmK centers) = length (map rep_y_utmK centers)"
    and s: "map st_x_utmK g \<noteq> []"
    using assms by simp_all
  have "map (\<lambda>i. center_region (centers ! i)) [0..<length centers] = map center_region centers"
    by (rule nth_equalityI) simp_all
  then show ?thesis
    unfolding day_frame_def Let_def fst_conv snd_conv nearest_rows[OF c s] nearest_rows[OF r s]
    by (simp add: comp_def)
qed

lemma out_rows_spec:
  assumes "\<forall>dg \<in> set gs. snd dg \<noteq> []" and "distinct (map fst gs)"
  shows "\<exists>dfs. out_rows centers gs = Inr dfs \<and> (dfs = [] \<longleftrightarrow> gs = []) \<and>
           (\<forall>d. map rd_region (filter (\<lambda>r. rd_date r = d) (concat dfs)) =
                 (if d \<in> fst ` set gs then map center_region centers else []))"
  using assms
proof (induction gs)
  case Nil
  then show ?case by simp
next
  case (Cons dg gs)
  obtain d0 g0 where dg: "dg = (d0, g0)" by (cases dg)
  have "g0 \<noteq> []" using Cons.prems(1) dg by simp
  from day_frame_rows[OF this, of centers d0]
  obtain df where df: "day_frame centers (d0, g0) = Inr df"
    "map rd_region df = map center_region centers" "\<forall>r \<in> set df. rd_date r = d0"
    by blast
  from Cons obtain dfs where dfs: "out_rows centers gs = Inr dfs"
    "\<forall>d. map rd_region (filter (\<lambda>r. rd_date r = d) (concat dfs)) =
                 (if d \<in> fst ` set gs then map center_region centers else [])"
    by auto
  have fresh: "d0 \<notin> fst ` set gs" using Cons.prems(2) dg by simp
  have f0: "\<And>d. filter (\<lambda>r. rd_date r = d) df = (if d = d0 then df else [])"
    using df(3) by (auto simp: filter_empty_conv intro: filter_True)
  have "out_rows centers (dg # gs) = Inr (df # dfs)" using df(1) dfs(1) dg by simp
  moreover have "\<forall>d. map rd_region (filter (\<lambda>r. rd_date r = d) (concat (df # dfs))) =
                 (if d \<in> fst ` set (dg # gs) then map center_region centers else [])"
    using dfs(2) fresh df(2) dg by (auto simp: f0)
  ultimately show ?case by simp
qed

lemma groupby_groups:
  "\<forall>kg \<in> set (groupby key xs). snd kg \<noteq> []"
  "distinct (map fst (groupby key xs))"
  "fst ` set (groupby key xs) = key ` set xs"
  unfolding groupby_def by (auto simp: filter_empty_conv comp_def image_iff)

lemma ex1_load_inputs:
  "load_inputs Pair ex1_centers ex1_sun ex1_meta 0 10 = Inr ([ex1_center], [ex1_near, ex1_far])"
  by (simp add: load_inputs_def load_centers_def load_sun_def prepare_meta_def
      attach_segment_to_sun_def merge_left_def drop_duplicates_def need_def zfill5_def
      remove_whitespace_def is_space_def to_obs_def clip_segments_def clip_row_def sort_segments_def
      List.map_filter_def ex1_centers_def ex1_center_def ex1_sun_def ex1_meta_def ex1_near_def
      ex1_far_def)

lemma ex1_region_days:
  "region_days [ex1_center] [ex1_near, ex1_far] = Inr [ex1_assigned]"
  by (simp add: region_days_def groupby_def day_frame_def nearest_station_for_day_def argmin_def
      hypot_zero ex1_center_def ex1_near_def ex1_far_def ex1_assigned_def)

text \<open>
  What the loop does, whatever the measurements are. It runs over the days for which
  the frame of attached observations has a row, with or without a measurement. When
  the frame is empty, nothing is produced (the concatenation fails). Otherwise
  \<open>region_days\<close> returns, and for every day the rows of that day are one row for each
  region, in the order of the regions, when the frame has a row of that day, and no row
  when it has none. A row holds the assignment of both policies.
\<close>

lemma region_days_rows_per_day:
  "(sun_seg = [] \<longrightarrow> region_days centers sun_seg = Inl NoObjectsToConcatenate) \<and>
   (sun_seg \<noteq> [] \<longrightarrow>
      (\<exists>region_day. region_days centers sun_seg = Inr region_day \<and>
         (\<forall>d. map (\<lambda>r. (rd_SIGUNGU_CD r, rd_resid_area r))
                 (filter (\<lambda>r. rd_date r = d) region_day) =
               (if d \<in> (\<lambda>c. o_date (cand_obs c)) ` set sun_seg
                then map (\<lambda>c. (SIGUNGU_CD c, resid_area c)) centers else []))))"
proof (intro conjI impI)
  assume "sun_seg = []"
  then show "region_days centers sun_seg = Inl NoObjectsToConcatenate"
    by (simp add: region_days_def groupby_def)
next
  assume ne: "sun_seg \<noteq> []"
  let ?gs = "groupby cand_date sun_seg"
  have "\<exists>dfs. out_rows centers ?gs = Inr dfs \<and> (dfs = [] \<longleftrightarrow> ?gs = []) \<and>
           (\<forall>d. map rd_region (filter (\<lambda>r. rd_date r = d) (concat dfs)) =
                 (if d \<in> fst ` set ?gs then map center_region centers else []))"
    by (rule out_rows_spec[OF groupby_groups(1,2)])
  then obtain dfs where dfs: "out_rows centers ?gs = Inr dfs" "dfs = [] \<longleftrightarrow> ?gs = []"
    "\<forall>d. map rd_region (filter (\<lambda>r. rd_date r = d) (concat dfs)) =
                 (if d \<in> fst ` set ?gs then map center_region centers else [])"
    by blast
  have "?gs \<noteq> []" using ne groupby_groups(3)[of cand_date sun_seg] by auto
  then have "region_days centers sun_seg = Inr (concat dfs)"
    using dfs(1,2) by (simp add: region_days_def)
  then show "\<exists>region_day. region_days centers sun_seg = Inr region_day \<and>
         (\<forall>d. map (\<lambda>r. (rd_SIGUNGU_CD r, rd_resid_area r))
                 (filter (\<lambda>r. rd_date r = d) region_day) =
               (if d \<in> (\<lambda>c. o_date (cand_obs c)) ` set sun_seg
                then map (\<lambda>c. (SIGUNGU_CD c, resid_area c)) centers else []))"
    using dfs(3) groupby_groups(3)[of cand_date sun_seg] by simp
qed

lemma ex7_load_inputs:
  "load_inputs Pair ex1_centers ex7_sun ex7_meta 0 10 = Inr ([ex1_center], [ex7_day5, ex7_day6])"
  by (simp add: load_inputs_def load_centers_def load_sun_def prepare_meta_def
      attach_segment_to_sun_def merge_left_def drop_duplicates_def need_def zfill5_def
      remove_whitespace_def is_space_def to_obs_def clip_segments_def clip_row_def
      sort_segments_def List.map_filter_def ex1_centers_def ex1_center_def ex7_sun_def
      ex7_meta_def ex7_day5_def ex7_day6_def)

lemma ex7_region_days:
  "region_days [ex1_center] [ex7_day5, ex7_day6] = Inr [ex7_row5, ex7_row6]"
  by (simp add: region_days_def groupby_def day_frame_def nearest_station_for_day_def argmin_def
      hypot_zero ex1_center_def ex7_day5_def ex7_day6_def ex7_row5_def ex7_row6_def)

text \<open>
  Claim C7 on an example. Station 10 is the only station; on day 5 its row has no
  measurement, on day 6 it has one. Day 5 has no station with a measurement, yet the
  whole input path keeps the row of day 5 and the loop emits a row of day 5 for the
  region, for both policies, with an empty measurement.
\<close>

theorem day_without_measurement_has_rows:
  "load_inputs Pair ex1_centers ex7_sun ex7_meta 0 10 = Inr ([ex1_center], [ex7_day5, ex7_day6]) \<and>
   o_date (cand_obs ex7_day5) = 5 \<and> o_sun (cand_obs ex7_day5) = None \<and>
   o_date (cand_obs ex7_day6) = 6 \<and>
   region_days [ex1_center] [ex7_day5, ex7_day6] = Inr [ex7_row5, ex7_row6] \<and>
   rd_date ex7_row5 = 5 \<and> sun_hr_centroid ex7_row5 = None \<and> sun_hr_rep ex7_row5 = None"
  using ex7_load_inputs ex7_region_days
  by (simp add: ex7_day5_def ex7_day6_def ex7_row5_def)

text \<open>
  Claim C1 on the example: the whole input path keeps the observation without
  measurement as a candidate, and the region is assigned to it, the nearest station,
  with an empty measurement, although the farther station has a measurement that day.
\<close>

theorem absent_measurement_station_assigned:
  "load_inputs Pair ex1_centers ex1_sun ex1_meta 0 10 = Inr ([ex1_center], [ex1_near, ex1_far]) \<and>
   region_days [ex1_center] [ex1_near, ex1_far] = Inr [ex1_assigned] \<and>
   station_id_centroid ex1_assigned = o_station (cand_obs ex1_near) \<and>
   o_sun (cand_obs ex1_near) = None \<and> sun_hr_centroid ex1_assigned = None \<and>
   o_sun (cand_obs ex1_far) = Some 7"
  using ex1_load_inputs ex1_region_days
  by (simp add: ex1_assigned_def ex1_near_def ex1_far_def)

subsection \<open>Monthly sums\<close>









subsection \<open>Intervals\<close>

lemma run_bounds_Cons2:
  "run_bounds (a # b # ss) n = (a, b - 1) # run_bounds (b # ss) n"
  by (simp add: run_bounds_def)

lemma run_bounds_single: "run_bounds [a] n = [(a, n - 1)]"
  by (simp add: run_bounds_def)


lemma runs_inside:
  assumes "sorted_wrt (<) (a # ss)" and "set (a # ss) = {i. a \<le> i \<and> i < n \<and> P i}"
    and "(s, e) \<in> set (run_bounds (a # ss) n)"
  shows "s \<le> e \<and> e < n \<and> P s \<and> (\<forall>i. s < i \<and> i \<le> e \<longrightarrow> \<not> P i) \<and> (Suc e < n \<longrightarrow> P (Suc e))"
  using assms
proof (induction ss arbitrary: a)
  case Nil
  have se: "s = a" "e = n - 1" using Nil.prems(3) by (simp_all add: run_bounds_single)
  have m: "\<And>i. i \<in> {a} \<longleftrightarrow> a \<le> i \<and> i < n \<and> P i" using Nil.prems(2) by auto
  have a: "a < n" "P a" using m[of a] by simp_all
  have "\<And>i. a < i \<Longrightarrow> i \<le> n - 1 \<Longrightarrow> \<not> P i"
  proof
    fix i assume "a < i" "i \<le> n - 1" "P i"
    then have "i \<in> {a}" using a(1) m[of i] by simp
    then show False using \<open>a < i\<close> by simp
  qed
  then show ?case using a se by auto
next
  case (Cons b ss)
  have ab: "a < b" using Cons.prems(1) by simp
  have srt: "sorted_wrt (<) (b # ss)" using Cons.prems(1) by simp
  have above: "\<forall>x \<in> set (b # ss). b \<le> x" using Cons.prems(1) by auto
  have m: "\<And>i. i \<in> set (a # b # ss) \<longleftrightarrow> a \<le> i \<and> i < n \<and> P i"
    using Cons.prems(2) by auto
  have a: "a < n" "P a" using m[of a] by simp_all
  have b: "b < n" "P b" using m[of b] by simp_all
  have set_b: "set (b # ss) = {i. b \<le> i \<and> i < n \<and> P i}"
  proof (intro set_eqI iffI)
    fix i assume i: "i \<in> set (b # ss)"
    then have "i \<in> set (a # b # ss)" by simp
    then have "i < n \<and> P i" using m[of i] by blast
    then show "i \<in> {i. b \<le> i \<and> i < n \<and> P i}" using above i by blast
  next
    fix i assume "i \<in> {i. b \<le> i \<and> i < n \<and> P i}"
    then have i: "b \<le> i" "i < n" "P i" by simp_all
    then have "i \<in> set (a # b # ss)" using m[of i] ab by simp
    then show "i \<in> set (b # ss)" using i(1) ab by auto
  qed
  from Cons.prems(3) have "(s, e) = (a, b - 1) \<or> (s, e) \<in> set (run_bounds (b # ss) n)"
    by (simp add: run_bounds_Cons2)
  then show ?case
  proof
    assume "(s, e) = (a, b - 1)"
    then have se: "s = a" "e = b - 1" by simp_all
    have "\<And>i. a < i \<Longrightarrow> i \<le> b - 1 \<Longrightarrow> \<not> P i"
    proof
      fix i assume i: "a < i" "i \<le> b - 1" "P i"
      then have "i < n" using b(1) by simp
      then have "i \<in> set (a # b # ss)" using i m[of i] by simp
      then have "i \<in> set (b # ss)" using i(1) by auto
      then have "b \<le> i" using above by blast
      then show False using i(2) ab by simp
    qed
    then show ?thesis using se a b ab by auto
  next
    assume "(s, e) \<in> set (run_bounds (b # ss) n)"
    then show ?thesis by (rule Cons.IH[OF srt set_b])
  qed
qed

lemma change_of_0: "change_of st ! 0 = True"
  by (simp add: change_of_def)

lemma change_of_nth:
  assumes "0 < i" and "i < length st"
  shows "change_of st ! i = nan_ne (st ! i) (st ! (i - 1))"
proof -
  obtain k where k: "i = Suc k" using assms(1) by (cases i) auto
  have "k < length (zip (tl st) (butlast st))" using assms(2) k by simp
  then have "map2 nan_ne (tl st) (butlast st) ! k = nan_ne (tl st ! k) (butlast st ! k)"
    by simp
  moreover have "tl st ! k = st ! Suc k" using assms(2) k by (simp add: nth_tl)
  moreover have "butlast st ! k = st ! k" using assms(2) k by (simp add: nth_butlast)
  ultimately show ?thesis by (simp add: change_of_def k)
qed

lemma not_nan_ne: "\<not> nan_ne x y \<Longrightarrow> \<exists>v. x = Some v \<and> y = Some v"
  by (cases x; cases y) auto

lemma starts_Cons:
  assumes "g \<noteq> []"
  shows "filter (\<lambda>i. change_of st ! i) [0..<length g]
           = 0 # filter (\<lambda>i. change_of st ! i) [1..<length g]"
proof -
  have "[0..<length g] = 0 # [1..<length g]" using assms by (simp add: upt_conv_Cons)
  then show ?thesis by (simp add: change_of_0)
qed

lemma group_runs_facts:
  assumes ne: "g \<noteq> []" and run: "(s, e) \<in> set (group_runs g sc)"
  shows "s \<le> e \<and> e < length g \<and>
         (s = 0 \<or> nan_ne (sc (g ! s)) (sc (g ! (s - 1)))) \<and>
         (\<forall>i. s < i \<and> i \<le> e \<longrightarrow> \<not> nan_ne (sc (g ! i)) (sc (g ! (i - 1)))) \<and>
         (Suc e < length g \<longrightarrow> nan_ne (sc (g ! Suc e)) (sc (g ! e)))"
proof -
  define P where "P = (\<lambda>i. change_of (map sc g) ! i)"
  define ss where "ss = filter P [1..<length g]"
  have starts: "filter P [0..<length g] = 0 # ss"
    unfolding P_def ss_def by (rule starts_Cons[OF ne])
  have "sorted_wrt (<) (filter P [0..<length g])" by (rule sorted_wrt_filter) simp
  then have srt: "sorted_wrt (<) (0 # ss)" by (simp only: starts)
  have "set (filter P [0..<length g]) = {i. 0 \<le> i \<and> i < length g \<and> P i}" by auto
  then have st: "set (0 # ss) = {i. 0 \<le> i \<and> i < length g \<and> P i}" by (simp only: starts)
  have "(s, e) \<in> set (run_bounds (0 # ss) (length g))"
    using run unfolding group_runs_def P_def[symmetric] starts .
  from runs_inside[OF srt st this]
  have f: "s \<le> e" "e < length g" "P s" "\<forall>i. s < i \<and> i \<le> e \<longrightarrow> \<not> P i"
    "Suc e < length g \<longrightarrow> P (Suc e)" by simp_all
  have Pn: "\<And>i. 0 < i \<Longrightarrow> i < length g \<Longrightarrow> P i = nan_ne (sc (g ! i)) (sc (g ! (i - 1)))"
    unfolding P_def by (simp add: change_of_nth)
  have a: "s = 0 \<or> nan_ne (sc (g ! s)) (sc (g ! (s - 1)))"
    using f(1,2,3) Pn[of s] by (cases "s = 0") simp_all
  have b: "\<forall>i. s < i \<and> i \<le> e \<longrightarrow> \<not> nan_ne (sc (g ! i)) (sc (g ! (i - 1)))"
  proof (intro allI impI)
    fix i assume i: "s < i \<and> i \<le> e"
    then have "\<not> P i" using f(4) by blast
    moreover have "P i = nan_ne (sc (g ! i)) (sc (g ! (i - 1)))"
      using i f(2) by (intro Pn) simp_all
    ultimately show "\<not> nan_ne (sc (g ! i)) (sc (g ! (i - 1)))" by simp
  qed
  have c: "Suc e < length g \<longrightarrow> nan_ne (sc (g ! Suc e)) (sc (g ! e))"
    using f(5) Pn[of "Suc e"] by auto
  show ?thesis using f(1,2) a b c by blast
qed


lemma run_constant:
  assumes inside: "\<forall>i. s < i \<and> i \<le> e \<longrightarrow> \<not> nan_ne (sc (g ! i)) (sc (g ! (i - 1)))"
    and i: "s \<le> i" "i \<le> e"
  shows "sc (g ! i) = sc (g ! s)"
  using i
proof (induction i)
  case 0
  then show ?case by simp
next
  case (Suc k)
  show ?case
  proof (cases "s = Suc k")
    case True
    then show ?thesis by simp
  next
    case False
    then have k: "s \<le> k" "k \<le> e" using Suc.prems by simp_all
    have "\<not> nan_ne (sc (g ! Suc k)) (sc (g ! (Suc k - 1)))"
      using inside Suc.prems False by (metis le_neq_implies_less)
    then have "sc (g ! Suc k) = sc (g ! k)" using not_nan_ne by fastforce
    then show ?thesis using Suc.IH[OF k] by simp
  qed
qed

lemma run_head_present:
  assumes inside: "\<forall>i. s < i \<and> i \<le> e \<longrightarrow> \<not> nan_ne (sc (g ! i)) (sc (g ! (i - 1)))"
    and "s < e"
  shows "sc (g ! s) \<noteq> None"
proof -
  have "\<not> nan_ne (sc (g ! Suc s)) (sc (g ! (Suc s - 1)))"
    using inside assms(2) by (metis Suc_leI lessI)
  then show ?thesis using not_nan_ne by fastforce
qed

lemma slice_length:
  assumes "s \<le> e" "e < length xs"
  shows "length (slice xs s e) = e - s + 1"
  using assms by (simp add: slice_def)

lemma slice_nth:
  assumes "s \<le> e" "e < length xs" "k \<le> e - s"
  shows "slice xs s e ! k = xs ! (s + k)"
  using assms by (simp add: slice_def)

lemma slice_set:
  assumes "s \<le> e" "e < length xs" "x \<in> set (slice xs s e)"
  shows "\<exists>i. s \<le> i \<and> i \<le> e \<and> x = xs ! i"
proof -
  from assms(3) obtain k where k: "k < length (slice xs s e)" "x = slice xs s e ! k"
    by (auto simp: in_set_conv_nth)
  then have "k \<le> e - s" using slice_length[OF assms(1,2)] by simp
  then have "x = xs ! (s + k)" "s + k \<le> e" using k(2) slice_nth[OF assms(1,2)] assms(1) by simp_all
  then show ?thesis by (intro exI[of _ "s + k"]) simp
qed

lemma group_intervals_runs:
  "group_intervals area g sc dc = (if g = [] then [] else
     concat (map (run_interval area g sc dc) (group_runs g sc)))"
proof (cases g)
  case Nil
  then show ?thesis by (simp add: group_intervals_def)
next
  case (Cons r0 rest)
  have "(\<lambda>(s, e). case map sc g ! s of None \<Rightarrow> []
            | Some st_id \<Rightarrow>
                [\<lparr>iv_SIGUNGU_CD = rd_SIGUNGU_CD r0, iv_resid_area = area, station_id = st_id,
                  start_date = map rd_date g ! s, end_date = map rd_date g ! e,
                  mean_distance_m = nanmean (take (e + 1 - s) (drop s (map dc g))),
                  n_days = e - s + 1\<rparr>]) = run_interval area g sc dc"
  proof (rule ext)
    fix x :: "nat \<times> nat"
    obtain s e where x: "x = (s, e)" by (cases x)
    have hd: "hd g = r0" using Cons by simp
    show "(case x of (s, e) \<Rightarrow> case map sc g ! s of None \<Rightarrow> []
            | Some st_id \<Rightarrow>
                [\<lparr>iv_SIGUNGU_CD = rd_SIGUNGU_CD r0, iv_resid_area = area, station_id = st_id,
                  start_date = map rd_date g ! s, end_date = map rd_date g ! e,
                  mean_distance_m = nanmean (take (e + 1 - s) (drop s (map dc g))),
                  n_days = e - s + 1\<rparr>]) = run_interval area g sc dc x"
      unfolding x run_interval_def slice_def hd by (simp split: option.splits)
  qed
  then have runs: "concat (map (\<lambda>(s, e). case map sc g ! s of None \<Rightarrow> []
            | Some st_id \<Rightarrow>
                [\<lparr>iv_SIGUNGU_CD = rd_SIGUNGU_CD r0, iv_resid_area = area, station_id = st_id,
                  start_date = map rd_date g ! s, end_date = map rd_date g ! e,
                  mean_distance_m = nanmean (take (e + 1 - s) (drop s (map dc g))),
                  n_days = e - s + 1\<rparr>]) (group_runs g sc))
      = concat (map (run_interval area g sc dc) (group_runs g sc))"
    by (simp only:)
  have "group_intervals area g sc dc = concat (map (\<lambda>(s, e). case map sc g ! s of None \<Rightarrow> []
            | Some st_id \<Rightarrow>
                [\<lparr>iv_SIGUNGU_CD = rd_SIGUNGU_CD r0, iv_resid_area = area, station_id = st_id,
                  start_date = map rd_date g ! s, end_date = map rd_date g ! e,
                  mean_distance_m = nanmean (take (e + 1 - s) (drop s (map dc g))),
                  n_days = e - s + 1\<rparr>]) (group_runs g sc))"
    unfolding group_intervals_def Let_def group_runs_def run_bounds_def change_of_def
    by (subst (1) Cons) (simp only: list.case)
  then show ?thesis using runs Cons by simp
qed





lemma run_rows:
  assumes ne: "g \<noteq> []" and run: "(s, e) \<in> set (group_runs g sc)"
  shows "s \<le> e" and "e < length g"
    and "\<forall>r \<in> set (slice g s e). sc r = sc (g ! s)"
    and "s < e \<Longrightarrow> sc (g ! s) \<noteq> None"
proof -
  from group_runs_facts[OF ne run]
  have f: "s \<le> e" "e < length g"
    "\<forall>i. s < i \<and> i \<le> e \<longrightarrow> \<not> nan_ne (sc (g ! i)) (sc (g ! (i - 1)))" by simp_all
  show "s \<le> e" "e < length g" by (rule f)+
  show "\<forall>r \<in> set (slice g s e). sc r = sc (g ! s)"
  proof
    fix r assume "r \<in> set (slice g s e)"
    from slice_set[OF f(1,2) this] obtain i where i: "s \<le> i" "i \<le> e" "r = g ! i" by blast
    show "sc r = sc (g ! s)" unfolding i(3) by (rule run_constant[OF f(3) i(1,2)])
  qed
  show "s < e \<Longrightarrow> sc (g ! s) \<noteq> None" by (rule run_head_present[OF f(3)])
qed



lemma group_intervals_run:
  assumes "iv \<in> set (group_intervals area g sc dc)"
  shows "\<exists>s e. s \<le> e \<and> e < length g \<and>
           iv_resid_area iv = area \<and>
           start_date iv = rd_date (g ! s) \<and> end_date iv = rd_date (g ! e) \<and>
           n_days iv = length (slice g s e) \<and>
           mean_distance_m iv = sum_list (map dc (slice g s e)) / real (length (slice g s e)) \<and>
           (\<forall>r \<in> set (slice g s e). sc r = Some (station_id iv)) \<and>
           (s = 0 \<or> nan_ne (sc (g ! s)) (sc (g ! (s - 1)))) \<and>
           (Suc e < length g \<longrightarrow> nan_ne (sc (g ! Suc e)) (sc (g ! e)))"
proof -
  have ne: "g \<noteq> []" using assms by (auto simp: group_intervals_runs split: if_splits)
  then obtain se where se: "se \<in> set (group_runs g sc)" "iv \<in> set (run_interval area g sc dc se)"
    using assms by (auto simp: group_intervals_runs)
  obtain s e where [simp]: "se = (s, e)" by (cases se)
  have run: "(s, e) \<in> set (group_runs g sc)" using se(1) by simp
  note r = run_rows[OF ne run]
  note f = group_runs_facts[OF ne run]
  have s: "s < length g" using r(1,2) by simp
  have "iv \<in> set (run_interval area g sc dc (s, e))" using se(2) by simp
  then obtain v where v0: "map sc g ! s = Some v"
    and iv: "iv = \<lparr>iv_SIGUNGU_CD = rd_SIGUNGU_CD (hd g), iv_resid_area = area, station_id = v,
            start_date = map rd_date g ! s, end_date = map rd_date g ! e,
            mean_distance_m = nanmean (slice (map dc g) s e),
            n_days = e - s + 1\<rparr>"
    unfolding run_interval_def fst_conv snd_conv
    by (cases "map sc g ! s") simp_all
  have v: "sc (g ! s) = Some v" using v0 s by simp
  have sl: "slice (map dc g) s e = map dc (slice g s e)"
    by (simp add: slice_def take_map drop_map)
  have len: "length (slice g s e) = e - s + 1" by (rule slice_length[OF r(1,2)])
  have "\<forall>r \<in> set (slice g s e). sc r = Some (station_id iv)"
    using r(3) v by (simp add: iv)
  moreover have "mean_distance_m iv = sum_list (map dc (slice g s e)) / real (length (slice g s e))"
    by (simp add: iv sl nanmean_def)
  moreover have "start_date iv = rd_date (g ! s)" "end_date iv = rd_date (g ! e)"
    using s r(2) by (simp_all add: iv)
  moreover have "n_days iv = length (slice g s e)" "iv_resid_area iv = area"
    by (simp_all add: iv len)
  ultimately show ?thesis using r(1,2) f by blast
qed

lemma region_rows_sorted:
  "filter (\<lambda>r. rd_resid_area r = a) (sort_key (\<lambda>r. (rd_resid_area r, rd_date r)) rd)
     = region_rows rd a"
proof -
  define key :: "region_day_row \<Rightarrow> ustr \<times> int"
    where "key = (\<lambda>r. (rd_resid_area r, rd_date r))"
  define ys where "ys = filter (\<lambda>r. rd_resid_area r = a) (sort_key key rd)"
  define xs where "xs = filter (\<lambda>r. rd_resid_area r = a) rd"
  have m: "mset ys = mset xs" unfolding ys_def xs_def by simp
  have st: "\<And>k :: region_day_row.
      filter (\<lambda>x. rd_date k = rd_date x) ys = filter (\<lambda>x. rd_date k = rd_date x) xs"
  proof -
    fix k :: region_day_row
    have "filter (\<lambda>x. rd_date k = rd_date x) ys
            = filter (\<lambda>x. key x = (a, rd_date k)) (sort_key key rd)"
      unfolding ys_def key_def by (simp add: conj_commute eq_commute cong: conj_cong)
    also have "\<dots> = filter (\<lambda>x. key x = (a, rd_date k)) rd" by (rule sort_key_stable)
    also have "\<dots> = filter (\<lambda>x. rd_date k = rd_date x) xs"
      unfolding xs_def key_def by (simp add: conj_commute eq_commute cong: conj_cong)
    finally show "filter (\<lambda>x. rd_date k = rd_date x) ys = filter (\<lambda>x. rd_date k = rd_date x) xs" .
  qed
  have "sorted (map key (sort_key key rd))" by (rule sorted_sort_key)
  then have "sorted_wrt (\<lambda>x y. key x \<le> key y) (sort_key key rd)" by (simp only: sorted_map)
  then have "sorted_wrt (\<lambda>x y. key x \<le> key y) ys" unfolding ys_def by (rule sorted_wrt_filter)
  then have "sorted_wrt (\<lambda>x y. rd_date x \<le> rd_date y) ys"
  proof (rule sorted_wrt_mono_rel[rotated])
    fix x y assume "x \<in> set ys" "y \<in> set ys" "key x \<le> key y"
    then show "rd_date x \<le> rd_date y" unfolding ys_def key_def by auto
  qed
  then have s: "sorted (map rd_date ys)" by (simp only: sorted_map)
  have "sort_key rd_date xs = ys" by (rule properties_for_sort_key[OF m st s])
  then show ?thesis unfolding region_rows_def ys_def xs_def key_def by simp
qed

lemma filter_concat_keyed:
  assumes "distinct ks" and "\<forall>k \<in> set ks. \<forall>x \<in> set (G k). f x = k"
  shows "filter (\<lambda>x. f x = a) (concat (map G ks)) = (if a \<in> set ks then G a else [])"
  using assms
proof (induction ks)
  case Nil
  then show ?case by simp
next
  case (Cons k ks)
  have Gk: "filter (\<lambda>x. f x = a) (G k) = (if k = a then G k else [])"
    using Cons.prems(2) by (auto simp: filter_empty_conv intro: filter_True)
  have ih: "filter (\<lambda>x. f x = a) (concat (map G ks)) = (if a \<in> set ks then G a else [])"
    using Cons by simp
  show ?case using Cons.prems(1) by (auto simp: Gk ih)
qed

lemma group_intervals_area:
  "iv \<in> set (group_intervals area g sc dc) \<Longrightarrow> iv_resid_area iv = area"
  using group_intervals_run by blast

lemma make_intervals_region:
  "filter (\<lambda>iv. iv_resid_area iv = a) (make_intervals rd sc dc)
     = group_intervals a (region_rows rd a) sc dc"
proof -
  define srt where "srt = sort_key (\<lambda>r. (rd_resid_area r, rd_date r)) rd"
  define ks where "ks = sort (remdups (map rd_resid_area srt))"
  define G where "G = (\<lambda>k. group_intervals k (filter (\<lambda>r. rd_resid_area r = k) srt) sc dc)"
  have mk: "make_intervals rd sc dc = concat (map G ks)"
    unfolding make_intervals_def groupby_def srt_def[symmetric] ks_def G_def
    by (simp add: comp_def)
  have d: "distinct ks" unfolding ks_def by simp
  have ar: "\<forall>k \<in> set ks. \<forall>x \<in> set (G k). iv_resid_area x = k"
    unfolding G_def using group_intervals_area by blast
  have rows: "\<And>k. filter (\<lambda>r. rd_resid_area r = k) srt = region_rows rd k"
    unfolding srt_def by (rule region_rows_sorted)
  have "filter (\<lambda>iv. iv_resid_area iv = a) (make_intervals rd sc dc)
          = (if a \<in> set ks then G a else [])"
    unfolding mk by (rule filter_concat_keyed[OF d ar])
  moreover have "a \<notin> set ks \<Longrightarrow> region_rows rd a = []"
  proof -
    assume "a \<notin> set ks"
    then have "a \<notin> rd_resid_area ` set rd" unfolding ks_def srt_def by simp
    then have "filter (\<lambda>r. rd_resid_area r = a) rd = []"
      unfolding filter_empty_conv by blast
    then show "region_rows rd a = []" unfolding region_rows_def by simp
  qed
  ultimately show ?thesis
    unfolding G_def rows by (auto simp: group_intervals_runs)
qed



lemma ex3_make_intervals:
  "make_intervals [ex3_day_c, ex3_day_a] (\<lambda>r. Some (station_id_centroid r)) dist_m_centroid
     = [ex3_interval]"
  by (simp add: make_intervals_def groupby_def group_intervals_def nanmean_def
      ex3_day_a_def ex3_day_c_def ex3_interval_def upt_rec)

text \<open>
  Claim C6. Every interval that \<open>make_intervals\<close> emits comes from a run of the rows
  of its region, taken in the order of their dates: positions \<open>s\<close> to \<open>e\<close>, such that
  the rows of the run all have the interval's station, the run cannot be extended to
  either side, the start and end dates are the dates of the first and last row of the
  run, the mean distance is the sum of the distances of the rows of the run divided by
  their number, and the day count is the number of rows of the run. The day count can
  be smaller than the number of calendar days from start to end: it is so on the
  example, where a day between them has no row.
\<close>

theorem make_intervals_runs:
  "(\<forall>iv \<in> set (make_intervals region_day station_col dist_col).
      \<exists>s e. s \<le> e \<and> e < length (region_rows region_day (iv_resid_area iv)) \<and>
        start_date iv = rd_date (region_rows region_day (iv_resid_area iv) ! s) \<and>
        end_date iv = rd_date (region_rows region_day (iv_resid_area iv) ! e) \<and>
        n_days iv = length (slice (region_rows region_day (iv_resid_area iv)) s e) \<and>
        mean_distance_m iv =
          sum_list (map dist_col (slice (region_rows region_day (iv_resid_area iv)) s e))
            / real (length (slice (region_rows region_day (iv_resid_area iv)) s e)) \<and>
        (\<forall>r \<in> set (slice (region_rows region_day (iv_resid_area iv)) s e).
            station_col r = Some (station_id iv)) \<and>
        (s = 0 \<or> nan_ne (station_col (region_rows region_day (iv_resid_area iv) ! s))
                        (station_col (region_rows region_day (iv_resid_area iv) ! (s - 1)))) \<and>
        (Suc e < length (region_rows region_day (iv_resid_area iv)) \<longrightarrow>
           nan_ne (station_col (region_rows region_day (iv_resid_area iv) ! Suc e))
                  (station_col (region_rows region_day (iv_resid_area iv) ! e)))) \<and>
   (\<exists>iv \<in> set (make_intervals [ex3_day_c, ex3_day_a] (\<lambda>r. Some (station_id_centroid r))
                   dist_m_centroid).
      int (n_days iv) < end_date iv - start_date iv + 1)"
proof (intro conjI ballI)
  fix iv assume iv: "iv \<in> set (make_intervals region_day station_col dist_col)"
  define a where "a = iv_resid_area iv"
  have "iv \<in> set (filter (\<lambda>iv. iv_resid_area iv = a) (make_intervals region_day station_col dist_col))"
    using iv by (simp add: a_def)
  then have "iv \<in> set (group_intervals a (region_rows region_day a) station_col dist_col)"
    by (simp only: make_intervals_region)
  from group_intervals_run[OF this]
  show "\<exists>s e. s \<le> e \<and> e < length (region_rows region_day (iv_resid_area iv)) \<and>
        start_date iv = rd_date (region_rows region_day (iv_resid_area iv) ! s) \<and>
        end_date iv = rd_date (region_rows region_day (iv_resid_area iv) ! e) \<and>
        n_days iv = length (slice (region_rows region_day (iv_resid_area iv)) s e) \<and>
        mean_distance_m iv =
          sum_list (map dist_col (slice (region_rows region_day (iv_resid_area iv)) s e))
            / real (length (slice (region_rows region_day (iv_resid_area iv)) s e)) \<and>
        (\<forall>r \<in> set (slice (region_rows region_day (iv_resid_area iv)) s e).
            station_col r = Some (station_id iv)) \<and>
        (s = 0 \<or> nan_ne (station_col (region_rows region_day (iv_resid_area iv) ! s))
                        (station_col (region_rows region_day (iv_resid_area iv) ! (s - 1)))) \<and>
        (Suc e < length (region_rows region_day (iv_resid_area iv)) \<longrightarrow>
           nan_ne (station_col (region_rows region_day (iv_resid_area iv) ! Suc e))
                  (station_col (region_rows region_day (iv_resid_area iv) ! e)))"
    unfolding a_def by blast
next
  show "\<exists>iv \<in> set (make_intervals [ex3_day_c, ex3_day_a] (\<lambda>r. Some (station_id_centroid r))
                   dist_m_centroid).
      int (n_days iv) < end_date iv - start_date iv + 1"
    unfolding ex3_make_intervals by (simp add: ex3_interval_def)
qed

theorem make_intervals_runs_witness:
  "ex3_interval \<in> set (make_intervals [ex3_day_c, ex3_day_a] (\<lambda>r. Some (station_id_centroid r))
                          dist_m_centroid) \<and>
   region_rows [ex3_day_c, ex3_day_a] (iv_resid_area ex3_interval) = [ex3_day_a, ex3_day_c] \<and>
   slice [ex3_day_a, ex3_day_c] 0 1 = [ex3_day_a, ex3_day_c] \<and>
   start_date ex3_interval = rd_date ex3_day_a \<and> end_date ex3_interval = rd_date ex3_day_c \<and>
   n_days ex3_interval = 2 \<and>
   mean_distance_m ex3_interval = sum_list (map dist_m_centroid [ex3_day_a, ex3_day_c]) / 2"
  using make_intervals_runs[of "[ex3_day_c, ex3_day_a]" "\<lambda>r. Some (station_id_centroid r)"
          dist_m_centroid] ex3_make_intervals
  by (simp add: region_rows_def slice_def ex3_day_a_def ex3_day_c_def ex3_interval_def)

subsection \<open>Missing columns\<close>

lemma load_centers_Inr:
  "load_centers centers = Inr cs \<Longrightarrow> set need \<subseteq> set (columns centers)"
  by (auto simp: load_centers_def Let_def filter_empty_conv split: if_splits)

lemma load_centers_Inl:
  assumes "\<not> set need \<subseteq> set (columns centers)"
  shows "\<exists>ms. load_centers centers = Inl (MissingColumns ms) \<and>
           set ms = set need - set (columns centers) \<and> sorted ms \<and> distinct ms"
proof -
  let ?missing = "filter (\<lambda>c. c \<notin> set (columns centers)) need"
  have "?missing \<noteq> []" using assms by (auto simp: filter_empty_conv)
  then have "load_centers centers = Inl (MissingColumns (sort (remdups ?missing)))"
    by (simp add: load_centers_def Let_def)
  moreover have "set (sort (remdups ?missing)) = set need - set (columns centers)" by auto
  ultimately show ?thesis by (intro exI[of _ "sort (remdups ?missing)"]) simp
qed

lemma load_sun_Inr:
  "load_sun sun a b = Inr obs \<Longrightarrow>
     col_jijeom \<in> set (columns sun) \<and> col_ilsi \<in> set (columns sun) \<and> sun_col \<in> set (columns sun)"
  unfolding load_sun_def Let_def by (simp split: if_splits)

lemma prepare_meta_Inr:
  "prepare_meta meta a b = Inr segs \<Longrightarrow>
     columns segs = columns meta @ [''seg_start'', ''seg_end''] \<and>
     set [col_jijeom, col_sijagil, col_jongryoil, col_wido, col_gyeongdo] \<subseteq> set (columns meta)"
  unfolding prepare_meta_def by (auto split: if_splits)

lemma attach_segment_to_sun_Inr_columns:
  "attach_segment_to_sun s segs = Inr x \<Longrightarrow> col_jijeommyeong \<in> set (columns segs)"
  unfolding attach_segment_to_sun_def Let_def
  by (simp add: filter_empty_conv split: if_splits)

lemma load_inputs_Inr:
  assumes "load_inputs to_utmK centers sun meta w_start w_end = Inr x"
  shows "set need \<subseteq> set (columns centers) \<and> set sun_required \<subseteq> set (columns sun) \<and>
         set meta_required \<subseteq> set (columns meta)"
proof -
  from assms obtain cs where cs: "load_centers centers = Inr cs"
    unfolding load_inputs_def by (cases "load_centers centers") simp_all
  from assms cs obtain obs where obs: "load_sun sun w_start w_end = Inr obs"
    unfolding load_inputs_def by (cases "load_sun sun w_start w_end") simp_all
  from assms cs obs obtain d0 ds where ds: "map o_date obs = d0 # ds"
    unfolding load_inputs_def by (cases "map o_date obs") simp_all
  from assms cs obs ds obtain segs
    where segs: "prepare_meta meta (fold min ds d0) (fold max ds d0) = Inr segs"
    unfolding load_inputs_def
    by (cases "prepare_meta meta (fold min ds d0) (fold max ds d0)") simp_all
  have rest: "(if col_jijeommyeong \<notin> set (columns sun)
                then Inl (KeyError [col_jijeommyeong])
                else
                  (case attach_segment_to_sun
                          \<lparr>columns = [col_jijeom, col_jijeommyeong, col_ilsi, sun_col],
                           rows = obs\<rparr> segs of
                     Inl e \<Rightarrow> Inl e
                   | Inr sun_seg \<Rightarrow>
                       Inr (cs, map (\<lambda>(ob, s).
                                let xy = to_utmK (seg_lon s) (seg_lat s)
                                in \<lparr>cand_obs = ob, cand_seg = s,
                                    st_x_utmK = fst xy, st_y_utmK = snd xy\<rparr>)
                              sun_seg))) = Inr x"
    using assms unfolding load_inputs_def by (simp only: cs obs ds segs sum.case list.case)
  then have nm: "col_jijeommyeong \<in> set (columns sun)" by (simp split: if_splits)
  with rest obtain sun_seg where
    "attach_segment_to_sun \<lparr>columns = [col_jijeom, col_jijeommyeong, col_ilsi, sun_col],
                             rows = obs\<rparr> segs = Inr sun_seg"
    by (cases "attach_segment_to_sun \<lparr>columns = [col_jijeom, col_jijeommyeong, col_ilsi, sun_col],
                             rows = obs\<rparr> segs") simp_all
  then have "col_jijeommyeong \<in> set (columns segs)" by (rule attach_segment_to_sun_Inr_columns)
  then have "col_jijeommyeong \<in> set (columns meta)"
    using prepare_meta_Inr[OF segs] by simp
  then show ?thesis
    using load_centers_Inr[OF cs] load_sun_Inr[OF obs] prepare_meta_Inr[OF segs] nm by simp
qed

lemma ex9_main_centers:
  "main Pair (\<lambda>d. ''2007-06'') ex9_centers ex1_sun ex1_meta 0 10
     = Inl (MissingColumns [''rep_x_utmK'', ''resid_area''])"
  by (simp add: main_def load_inputs_def load_centers_def need_def ex9_centers_def)

lemma ex9_main_sun:
  "main Pair (\<lambda>d. ''2007-06'') ex1_centers ex9_sun ex1_meta 0 10
     = Inl (KeyError [col_jijeommyeong])"
  by (simp add: main_def load_inputs_def load_centers_def load_sun_def prepare_meta_def need_def
      to_obs_def List.map_filter_def ex1_centers_def ex9_sun_def ex1_sun_def ex1_meta_def)

lemma ex9_main_meta:
  "main Pair (\<lambda>d. ''2007-06'') ex1_centers ex1_sun ex9_meta 0 10 = Inl (KeyError [col_wido])"
  by (simp add: main_def load_inputs_def load_centers_def load_sun_def prepare_meta_def need_def
      to_obs_def List.map_filter_def ex1_centers_def ex9_meta_def ex1_sun_def ex1_meta_def)

text \<open>
  Claim C9. When the centers table lacks a needed column, loading fails, and so does
  \<open>main\<close>, with one error that lists every needed column the table lacks, each once,
  sorted. When the sunshine table or the metadata lacks a column that \<open>main\<close> reads,
  loading fails with an error, and so does \<open>main\<close>. In both cases the failure is that
  of \<open>load_inputs\<close>, which comes before the loop that assigns stations.
\<close>

theorem main_missing_column_aborts:
  "(\<not> set need \<subseteq> set (columns centers) \<longrightarrow>
      (\<exists>ms. load_inputs to_utmK centers sun meta w_start w_end = Inl (MissingColumns ms) \<and>
            main to_utmK to_period_M centers sun meta w_start w_end = Inl (MissingColumns ms) \<and>
            set ms = set need - set (columns centers) \<and> sorted ms \<and> distinct ms)) \<and>
   (\<not> set [col_jijeom, col_ilsi, sun_col, col_jijeommyeong] \<subseteq> set (columns sun) \<or>
    \<not> set [col_jijeom, col_jijeommyeong, col_sijagil, col_jongryoil, col_wido, col_gyeongdo]
         \<subseteq> set (columns meta) \<longrightarrow>
      (\<exists>e. load_inputs to_utmK centers sun meta w_start w_end = Inl e \<and>
           main to_utmK to_period_M centers sun meta w_start w_end = Inl e))"
proof (intro conjI impI)
  assume "\<not> set need \<subseteq> set (columns centers)"
  from load_centers_Inl[OF this] obtain ms
    where ms: "load_centers centers = Inl (MissingColumns ms)"
      "set ms = set need - set (columns centers)" "sorted ms" "distinct ms" by blast
  have l: "load_inputs to_utmK centers sun meta w_start w_end = Inl (MissingColumns ms)"
    unfolding load_inputs_def by (simp only: ms(1) sum.case)
  have "main to_utmK to_period_M centers sun meta w_start w_end = Inl (MissingColumns ms)"
    unfolding main_def by (simp only: l sum.case)
  then show "\<exists>ms. load_inputs to_utmK centers sun meta w_start w_end = Inl (MissingColumns ms) \<and>
            main to_utmK to_period_M centers sun meta w_start w_end = Inl (MissingColumns ms) \<and>
            set ms = set need - set (columns centers) \<and> sorted ms \<and> distinct ms"
    using l ms by blast
next
  assume a: "\<not> set [col_jijeom, col_ilsi, sun_col, col_jijeommyeong] \<subseteq> set (columns sun) \<or>
    \<not> set [col_jijeom, col_jijeommyeong, col_sijagil, col_jongryoil, col_wido, col_gyeongdo]
         \<subseteq> set (columns meta)"
  obtain e where l: "load_inputs to_utmK centers sun meta w_start w_end = Inl e"
  proof (cases "load_inputs to_utmK centers sun meta w_start w_end")
    case (Inl e)
    then show ?thesis by (rule that)
  next
    case (Inr x)
    from load_inputs_Inr[OF this] a show ?thesis by blast
  qed
  have "main to_utmK to_period_M centers sun meta w_start w_end = Inl e"
    unfolding main_def by (simp only: l sum.case)
  then show "\<exists>e. load_inputs to_utmK centers sun meta w_start w_end = Inl e \<and>
           main to_utmK to_period_M centers sun meta w_start w_end = Inl e"
    using l by blast
qed

theorem main_missing_column_aborts_witness:
  "\<not> set need \<subseteq> set (columns ex9_centers) \<and>
   main Pair (\<lambda>d. ''2007-06'') ex9_centers ex1_sun ex1_meta 0 10
     = Inl (MissingColumns [''rep_x_utmK'', ''resid_area'']) \<and>
   \<not> set [col_jijeom, col_ilsi, sun_col, col_jijeommyeong] \<subseteq> set (columns ex9_sun) \<and>
   main Pair (\<lambda>d. ''2007-06'') ex1_centers ex9_sun ex1_meta 0 10
     = Inl (KeyError [col_jijeommyeong]) \<and>
   \<not> set [col_jijeom, col_jijeommyeong, col_sijagil, col_jongryoil, col_wido, col_gyeongdo]
        \<subseteq> set (columns ex9_meta) \<and>
   main Pair (\<lambda>d. ''2007-06'') ex1_centers ex1_sun ex9_meta 0 10 = Inl (KeyError [col_wido])"
  using main_missing_column_aborts[where centers = ex9_centers and sun = ex1_sun
          and meta = ex1_meta and to_utmK = Pair and to_period_M = "\<lambda>d. ''2007-06''"
          and w_start = 0 and w_end = 10]
        main_missing_column_aborts[where centers = ex1_centers and sun = ex9_sun
          and meta = ex1_meta and to_utmK = Pair and to_period_M = "\<lambda>d. ''2007-06''"
          and w_start = 0 and w_end = 10]
        main_missing_column_aborts[where centers = ex1_centers and sun = ex1_sun
          and meta = ex9_meta and to_utmK = Pair and to_period_M = "\<lambda>d. ''2007-06''"
          and w_start = 0 and w_end = 10]
        ex9_main_centers ex9_main_sun ex9_main_meta
  by (simp add: need_def ex9_centers_def ex9_sun_def ex9_meta_def)

end
